theory Spec2Isabelle
  imports Main "HOL-Library.AList"
begin

section \<open>Python values and exceptions\<close>

text \<open>
  Bytes are 8-bit characters; a Python string is a list of Unicode code points.
\<close>

type_synonym bytes = "char list"
type_synonym str = "nat list"

definition ascii_text :: "string \<Rightarrow> str" where
  "ascii_text s = map of_char s"

text \<open>
  The Python objects that reach \<open>testing.py\<close> as an exit payload, a return value or the
  value of an environment override. \<open>PyBool\<close> is kept apart from \<open>PyInt\<close> because
  \<open>bool\<close> is a subclass of \<open>int\<close> and the object itself is stored in the result.
  \<open>PyObject ne s\<close> is any other object: the code looks at it only through \<open>obj != 0\<close>
  (\<open>ne\<close>) and \<open>str(obj)\<close> (\<open>s\<close>); the float \<open>0.0\<close> is \<open>PyObject False ''0.0''\<close>.
\<close>

datatype py_value =
    PyNone
  | PyInt int
  | PyBool bool
  | PyStr str
  | PyObject bool str

fun isinstance_int :: "py_value \<Rightarrow> bool" where
  "isinstance_int (PyInt i) = True"
| "isinstance_int (PyBool b) = True"
| "isinstance_int v = False"

text \<open>\<open>v != 0\<close>\<close>

fun ne_zero :: "py_value \<Rightarrow> bool" where
  "ne_zero PyNone = True"
| "ne_zero (PyInt i) = (i \<noteq> 0)"
| "ne_zero (PyBool b) = b"
| "ne_zero (PyStr s) = True"
| "ne_zero (PyObject ne s) = ne"

text \<open>The integer an \<open>int\<close> instance stands for (\<open>True == 1\<close>, \<open>False == 0\<close>).\<close>

fun int_value :: "py_value \<Rightarrow> int option" where
  "int_value (PyInt i) = Some i"
| "int_value (PyBool b) = Some (if b then 1 else 0)"
| "int_value v = None"

fun digits_of :: "nat \<Rightarrow> str" where
  "digits_of n = (if n < 10 then [48 + n] else digits_of (n div 10) @ [48 + n mod 10])"

definition str_of_int :: "int \<Rightarrow> str" where
  "str_of_int i = (if i < 0 then 45 # digits_of (nat (- i)) else digits_of (nat i))"

text \<open>\<open>str(v)\<close>\<close>

fun py_str :: "py_value \<Rightarrow> str" where
  "py_str PyNone = ascii_text ''None''"
| "py_str (PyInt i) = str_of_int i"
| "py_str (PyBool b) = (if b then ascii_text ''True'' else ascii_text ''False'')"
| "py_str (PyStr s) = s"
| "py_str (PyObject ne s) = s"

text \<open>
  Exceptions. \<open>SystemExit\<close>, \<open>KeyboardInterrupt\<close> and \<open>GeneratorExit\<close> derive from
  \<open>BaseException\<close> only; everything else here derives from \<open>Exception\<close>.
\<close>

datatype exn =
    SystemExit py_value
  | KeyboardInterrupt
  | GeneratorExit
  | TypeError
  | ValueError
  | LookupError
  | UnicodeEncodeError
  | UnicodeDecodeError
  | OSError
  | KeyError
  | AttributeError
  | OtherException string

fun isinstance_SystemExit :: "exn \<Rightarrow> bool" where
  "isinstance_SystemExit (SystemExit c) = True"
| "isinstance_SystemExit e = False"

fun isinstance_Exception :: "exn \<Rightarrow> bool" where
  "isinstance_Exception (SystemExit c) = False"
| "isinstance_Exception KeyboardInterrupt = False"
| "isinstance_Exception GeneratorExit = False"
| "isinstance_Exception e = True"

fun isinstance_OSError :: "exn \<Rightarrow> bool" where
  "isinstance_OSError OSError = True"
| "isinstance_OSError e = False"

text \<open>How a call ends: it returns a value or raises.\<close>

datatype 'a outcome = Returns 'a | Raises exn

section \<open>Character sets\<close>

text \<open>
  The codecs belong to the Python library. A codec is given by how it encodes one code
  point and how it decodes the sequence at the head of a byte string; the error policies
  (\<open>errors=\<close>) are those of the library: \<open>strict\<close> raises, \<open>replace\<close> substitutes
  (\<open>U+FFFD\<close> when decoding, \<open>?\<close> when encoding), \<open>backslashreplace\<close> writes an escape.
\<close>

datatype errors = Strict | Replace | BackslashReplace

text \<open>
  The result of one decoding step on \<open>b # rest\<close>: a code point and how many bytes of
  \<open>rest\<close> it took; an ill-formed sequence made of \<open>b\<close> and that many bytes of \<open>rest\<close>;
  or a sequence that is well formed so far and cut by the end of the input.
\<close>

datatype dec_step = Decoded nat nat | Malformed nat | Truncated

record codec =
  encode_char :: "nat \<Rightarrow> bytes option"
  decode_step :: "char \<Rightarrow> bytes \<Rightarrow> dec_step"

definition hex_digit :: "nat \<Rightarrow> nat" where
  "hex_digit d = (if d < 10 then 48 + d else 87 + d)"

fun hex_fixed :: "nat \<Rightarrow> nat \<Rightarrow> str" where
  "hex_fixed 0 n = []"
| "hex_fixed (Suc w) n = hex_fixed w (n div 16) @ [hex_digit (n mod 16)]"

text \<open>\<open>\xNN\<close>, \<open>\uNNNN\<close> or \<open>\UNNNNNNNN\<close> for a code point that cannot be encoded.\<close>

definition backslash_escape :: "nat \<Rightarrow> str" where
  "backslash_escape cp =
     (if cp < 0x100 then [92, 120] @ hex_fixed 2 cp
      else if cp < 0x10000 then [92, 117] @ hex_fixed 4 cp
      else [92, 85] @ hex_fixed 8 cp)"

fun encode :: "codec \<Rightarrow> errors \<Rightarrow> str \<Rightarrow> exn + bytes" where
  "encode c e [] = Inr []"
| "encode c e (cp # t) =
     (case encode_char c cp of
        Some bs \<Rightarrow> (case encode c e t of Inl x \<Rightarrow> Inl x | Inr r \<Rightarrow> Inr (bs @ r))
      | None \<Rightarrow>
          (case e of
             Strict \<Rightarrow> Inl UnicodeEncodeError
           | Replace \<Rightarrow> (case encode c e t of Inl x \<Rightarrow> Inl x | Inr r \<Rightarrow> Inr (CHR ''?'' # r))
           | BackslashReplace \<Rightarrow>
               (case encode c e t of Inl x \<Rightarrow> Inl x
                | Inr r \<Rightarrow> Inr (map char_of (backslash_escape cp) @ r))))"

text \<open>
  Decoding. With \<open>final\<close> unset (the incremental decoder of a reader) a truncated
  sequence at the end is handed back undecoded; with \<open>final\<close> set it is an error that
  spans the rest of the input. The result is the decoded string and the bytes handed back.
\<close>

fun decode_incr :: "codec \<Rightarrow> errors \<Rightarrow> bool \<Rightarrow> bytes \<Rightarrow> exn + (str \<times> bytes)" where
  "decode_incr c e final [] = Inr ([], [])"
| "decode_incr c e final (b # bs) =
     (case decode_step c b bs of
        Decoded cp k \<Rightarrow>
          (case decode_incr c e final (drop k bs) of
             Inl x \<Rightarrow> Inl x
           | Inr (t, left) \<Rightarrow> Inr (cp # t, left))
      | Malformed k \<Rightarrow>
          (case e of
             Strict \<Rightarrow> Inl UnicodeDecodeError
           | Replace \<Rightarrow>
               (case decode_incr c e final (drop k bs) of
                  Inl x \<Rightarrow> Inl x
                | Inr (t, left) \<Rightarrow> Inr (0xFFFD # t, left))
           | BackslashReplace \<Rightarrow>
               (case decode_incr c e final (drop k bs) of
                  Inl x \<Rightarrow> Inl x
                | Inr (t, left) \<Rightarrow>
                    Inr (concat (map (\<lambda>x. [92, 120] @ hex_fixed 2 (of_char x)) (b # take k bs)) @ t,
                         left)))
      | Truncated \<Rightarrow>
          (if \<not> final then Inr ([], b # bs)
           else (case e of
                   Strict \<Rightarrow> Inl UnicodeDecodeError
                 | Replace \<Rightarrow> Inr ([0xFFFD], [])
                 | BackslashReplace \<Rightarrow>
                     Inr (concat (map (\<lambda>x. [92, 120] @ hex_fixed 2 (of_char x)) (b # bs)), []))))"

text \<open>\<open>bytes.decode\<close> with a codec already looked up.\<close>

definition decode :: "codec \<Rightarrow> errors \<Rightarrow> bytes \<Rightarrow> exn + str" where
  "decode c e bs = (case decode_incr c e True bs of Inl x \<Rightarrow> Inl x | Inr (t, left) \<Rightarrow> Inr t)"

subsection \<open>The codecs \<open>ascii\<close>, \<open>latin-1\<close> and \<open>utf-8\<close>\<close>

definition ascii_codec :: codec where
  "ascii_codec =
     \<lparr> encode_char = (\<lambda>cp. if cp < 0x80 then Some [char_of cp] else None),
       decode_step = (\<lambda>b rest. if (of_char b :: nat) < 0x80 then Decoded (of_char b) 0
                                else Malformed 0) \<rparr>"

definition latin1_codec :: codec where
  "latin1_codec =
     \<lparr> encode_char = (\<lambda>cp. if cp < 0x100 then Some [char_of cp] else None),
       decode_step = (\<lambda>b rest. Decoded (of_char b) 0) \<rparr>"

definition utf8_encode_char :: "nat \<Rightarrow> bytes option" where
  "utf8_encode_char cp =
     (if cp < 0x80 then Some [char_of cp]
      else if cp < 0x800 then Some [char_of (0xC0 + cp div 64), char_of (0x80 + cp mod 64)]
      else if 0xD800 \<le> cp \<and> cp < 0xE000 then None
      else if cp < 0x10000 then
        Some [char_of (0xE0 + cp div 4096), char_of (0x80 + cp div 64 mod 64),
              char_of (0x80 + cp mod 64)]
      else if cp < 0x110000 then
        Some [char_of (0xF0 + cp div 262144), char_of (0x80 + cp div 4096 mod 64),
              char_of (0x80 + cp div 64 mod 64), char_of (0x80 + cp mod 64)]
      else None)"

definition is_continuation :: "nat \<Rightarrow> bool" where
  "is_continuation b = (0x80 \<le> b \<and> b < 0xC0)"

definition utf8_decode_step :: "char \<Rightarrow> bytes \<Rightarrow> dec_step" where
  "utf8_decode_step c rest =
     (let b = (of_char c :: nat); bs = (map of_char rest :: nat list) in
      if b < 0x80 then Decoded b 0
      else if b < 0xC2 then Malformed 0
      else if b < 0xE0 then
        (case bs of
           [] \<Rightarrow> Truncated
         | b2 # r2 \<Rightarrow>
             if \<not> is_continuation b2 then Malformed 0
             else Decoded ((b - 0xC0) * 64 + (b2 - 0x80)) 1)
      else if b < 0xF0 then
        (case bs of
           [] \<Rightarrow> Truncated
         | b2 # r2 \<Rightarrow>
             if \<not> is_continuation b2 \<or> (if b2 < 0xA0 then b = 0xE0 else b = 0xED)
             then Malformed 0
             else (case r2 of
                     [] \<Rightarrow> Truncated
                   | b3 # r3 \<Rightarrow>
                       if \<not> is_continuation b3 then Malformed 1
                       else Decoded ((b - 0xE0) * 4096 + (b2 - 0x80) * 64 + (b3 - 0x80)) 2))
      else if b < 0xF5 then
        (case bs of
           [] \<Rightarrow> Truncated
         | b2 # r2 \<Rightarrow>
             if \<not> is_continuation b2 \<or> (if b2 < 0x90 then b = 0xF0 else b = 0xF4)
             then Malformed 0
             else (case r2 of
                     [] \<Rightarrow> Truncated
                   | b3 # r3 \<Rightarrow>
                       if \<not> is_continuation b3 then Malformed 1
                       else (case r3 of
                               [] \<Rightarrow> Truncated
                             | b4 # r4 \<Rightarrow>
                                 if \<not> is_continuation b4 then Malformed 2
                                 else Decoded ((b - 0xF0) * 262144 + (b2 - 0x80) * 4096
                                               + (b3 - 0x80) * 64 + (b4 - 0x80)) 3)))
      else Malformed 0)"

definition utf8_codec :: codec where
  "utf8_codec = \<lparr> encode_char = utf8_encode_char, decode_step = utf8_decode_step \<rparr>"

text \<open>\<open>codecs.lookup\<close>, for the names modelled here; any other name is a \<open>LookupError\<close>.\<close>

definition lookup_codec :: "string \<Rightarrow> codec option" where
  "lookup_codec name =
     (if name = ''utf-8'' \<or> name = ''utf8'' then Some utf8_codec
      else if name = ''ascii'' then Some ascii_codec
      else if name = ''latin-1'' \<or> name = ''latin1'' then Some latin1_codec
      else None)"

text \<open>\<open>s.encode(charset)\<close> and \<open>b.decode(charset, errors)\<close>\<close>

definition str_encode :: "str \<Rightarrow> string \<Rightarrow> exn + bytes" where
  "str_encode s charset =
     (case lookup_codec charset of None \<Rightarrow> Inl LookupError | Some c \<Rightarrow> encode c Strict s)"

definition bytes_decode :: "bytes \<Rightarrow> string \<Rightarrow> errors \<Rightarrow> exn + str" where
  "bytes_decode b charset e =
     (case lookup_codec charset of None \<Rightarrow> Inl LookupError | Some c \<Rightarrow> decode c e b)"

text \<open>
  \<open>s.replace(old, new)\<close>: the occurrences of \<open>old\<close> are replaced from left to right and do
  not overlap. Python puts \<open>new\<close> before every character and at the end when \<open>old\<close> is empty.
\<close>

function py_replace :: "'a list \<Rightarrow> 'a list \<Rightarrow> 'a list \<Rightarrow> 'a list" where
  "py_replace [] old new = (if old = [] then new else [])"
| "py_replace (x # xs) old new =
     (if old = [] then new @ x # py_replace xs old new
      else if take (length old) (x # xs) = old
      then new @ py_replace (drop (length old) (x # xs)) old new
      else x # py_replace xs old new)"
  by pat_completeness auto
termination
  by (relation "measure (\<lambda>(s, old, new). length s)") (auto simp: neq_Nil_conv)

text \<open>\<open>s.rstrip(chars)\<close>\<close>

definition py_rstrip :: "'a list \<Rightarrow> 'a list \<Rightarrow> 'a list" where
  "py_rstrip s chars = rev (dropWhile (\<lambda>c. c \<in> set chars) (rev s))"

definition CR :: nat where "CR = 13"
definition LF :: nat where "LF = 10"

section \<open>In-memory byte streams\<close>

text \<open>\<open>io.BytesIO\<close> as a reader: the buffer and the position of the next read.\<close>

record bytesio =
  buf :: bytes
  pos :: nat

definition BytesIO :: "bytes \<Rightarrow> bytesio" where
  "BytesIO b = \<lparr> buf = b, pos = 0 \<rparr>"

definition unread :: "bytesio \<Rightarrow> bytes" where
  "unread s = drop (pos s) (buf s)"

text \<open>The first line of a byte string, with its newline when there is one.\<close>

definition first_line :: "bytes \<Rightarrow> bytes" where
  "first_line bs =
     takeWhile (\<lambda>c. c \<noteq> CHR 0x0A) bs @ take 1 (dropWhile (\<lambda>c. c \<noteq> CHR 0x0A) bs)"

text \<open>\<open>read(n)\<close>, \<open>read1(n)\<close> and \<open>readline(n)\<close>: a negative \<open>n\<close> is no limit.\<close>

definition bytesio_read :: "int \<Rightarrow> bytesio \<Rightarrow> bytes \<times> bytesio" where
  "bytesio_read n s =
     (let rv = (if n < 0 then unread s else take (nat n) (unread s))
      in (rv, s\<lparr>pos := pos s + length rv\<rparr>))"

definition bytesio_readline :: "int \<Rightarrow> bytesio \<Rightarrow> bytes \<times> bytesio" where
  "bytesio_readline n s =
     (let rv = first_line (if n < 0 then unread s else take (nat n) (unread s))
      in (rv, s\<lparr>pos := pos s + length rv\<rparr>))"

text \<open>\<open>readlines()\<close>: the lines that are left, each with its newline.\<close>

fun lines_of :: "bytes \<Rightarrow> bytes list" where
  "lines_of [] = []"
| "lines_of (c # cs) =
     (if c = CHR 0x0A then [c] # lines_of cs
      else (case lines_of cs of [] \<Rightarrow> [[c]] | l # ls \<Rightarrow> (c # l) # ls))"

definition bytesio_readlines :: "bytesio \<Rightarrow> bytes list \<times> bytesio" where
  "bytesio_readlines s =
     (let rv = lines_of (unread s) in (rv, s\<lparr>pos := pos s + length (concat rv)\<rparr>))"

text \<open>\<open>next(stream)\<close>: the next line, or \<open>StopIteration\<close> (\<open>None\<close>) at the end.\<close>

definition bytesio_next :: "bytesio \<Rightarrow> bytes option \<times> bytesio" where
  "bytesio_next s =
     (let (line, s') = bytesio_readline (- 1) s
      in if line = [] then (None, s') else (Some line, s'))"

section \<open>\<open>EchoingStdin\<close>\<close>

text \<open>
  The wrapped input stream and the output sink. The sink is the session's
  \<open>bytes_output\<close>; nothing in \<open>testing.py\<close> moves its position, so it is modelled by its
  contents and a write appends.
\<close>

record echoing_stdin =
  e_input :: bytesio
  e_output :: bytes

definition echo :: "bytes \<Rightarrow> echoing_stdin \<Rightarrow> bytes \<times> echoing_stdin" where
  "echo rv self = (rv, self\<lparr>e_output := e_output self @ rv\<rparr>)"

definition echo_read :: "int \<Rightarrow> echoing_stdin \<Rightarrow> bytes \<times> echoing_stdin" where
  "echo_read n self =
     (let (rv, i) = bytesio_read n (e_input self) in echo rv (self\<lparr>e_input := i\<rparr>))"

definition echo_readline :: "int \<Rightarrow> echoing_stdin \<Rightarrow> bytes \<times> echoing_stdin" where
  "echo_readline n self =
     (let (rv, i) = bytesio_readline n (e_input self) in echo rv (self\<lparr>e_input := i\<rparr>))"

text \<open>\<open>[self._echo(x) for x in self._input.readlines()]\<close>\<close>

fun echo_each :: "bytes list \<Rightarrow> echoing_stdin \<Rightarrow> bytes list \<times> echoing_stdin" where
  "echo_each [] self = ([], self)"
| "echo_each (x # xs) self =
     (let (rv, self1) = echo x self; (rvs, self2) = echo_each xs self1 in (rv # rvs, self2))"

definition echo_readlines :: "echoing_stdin \<Rightarrow> bytes list \<times> echoing_stdin" where
  "echo_readlines self =
     (let (ls, i) = bytesio_readlines (e_input self) in echo_each ls (self\<lparr>e_input := i\<rparr>))"

text \<open>
  \<open>__iter__\<close> gives a generator over the wrapped stream; one \<open>next\<close> of it takes the next
  line of the wrapped stream and echoes it, or ends the iteration.
\<close>

definition echo_iter_next :: "echoing_stdin \<Rightarrow> bytes option \<times> echoing_stdin" where
  "echo_iter_next self =
     (case bytesio_next (e_input self) of
        (None, i) \<Rightarrow> (None, self\<lparr>e_input := i\<rparr>)
      | (Some x, i) \<Rightarrow> (let (rv, self1) = echo x (self\<lparr>e_input := i\<rparr>) in (Some rv, self1)))"

text \<open>
  Any other attribute is the wrapped stream's (\<open>__getattr__\<close>): \<open>read1\<close>, which is what
  a text wrapper calls on its buffer, reads the wrapped stream and echoes nothing.
\<close>

definition echo_read1 :: "int \<Rightarrow> echoing_stdin \<Rightarrow> bytes \<times> echoing_stdin" where
  "echo_read1 n self = (let (rv, i) = bytesio_read n (e_input self) in (rv, self\<lparr>e_input := i\<rparr>))"

text \<open>A caller's reads, one after the other, and what each returned.\<close>

datatype read_op = Read int | Readline int | Readlines | Next

fun run_read_op :: "read_op \<Rightarrow> echoing_stdin \<Rightarrow> bytes list \<times> echoing_stdin" where
  "run_read_op (Read n) self = (let (rv, s) = echo_read n self in ([rv], s))"
| "run_read_op (Readline n) self = (let (rv, s) = echo_readline n self in ([rv], s))"
| "run_read_op Readlines self = echo_readlines self"
| "run_read_op Next self =
     (case echo_iter_next self of (None, s) \<Rightarrow> ([], s) | (Some rv, s) \<Rightarrow> ([rv], s))"

fun run_read_ops :: "read_op list \<Rightarrow> echoing_stdin \<Rightarrow> bytes list \<times> echoing_stdin" where
  "run_read_ops [] self = ([], self)"
| "run_read_ops (op # ops) self =
     (let (rvs, s1) = run_read_op op self; (rest, s2) = run_read_ops ops s1
      in (rvs @ rest, s2))"

section \<open>\<open>make_input_stream\<close>\<close>

text \<open>
  The input payload of an invocation. \<open>_find_binary_reader\<close> lives in \<open>_compat.py\<close>;
  what it finds for a stream (an object with a \<open>read\<close> attribute) is taken as given with
  the stream: the binary reader, or \<open>None\<close>.
\<close>

datatype input_payload =
    InputStream "bytesio option"
  | InputNone
  | InputBytes bytes
  | InputStr str

definition make_input_stream :: "input_payload \<Rightarrow> string \<Rightarrow> exn + bytesio" where
  "make_input_stream input charset =
     (case input of
        InputStream found \<Rightarrow> (case found of Some rv \<Rightarrow> Inr rv | None \<Rightarrow> Inl TypeError)
      | InputNone \<Rightarrow> Inr (BytesIO [])
      | InputBytes b \<Rightarrow> Inr (BytesIO b)
      | InputStr s \<Rightarrow>
          (case str_encode s charset of Inl e \<Rightarrow> Inl e | Inr b \<Rightarrow> Inr (BytesIO b)))"

section \<open>\<open>CliRunner\<close> and \<open>Result\<close>\<close>

text \<open>
  Dictionaries are objects: a heap of association lists in insertion order, an
  address being an index of the heap. \<open>env\<close> is the address of the runner's mapping.
\<close>

type_synonym pydict = "(string \<times> py_value) list"
type_synonym heap = "pydict list"

record runner =
  charset :: string
  env :: nat
  echo_stdin :: bool
  mix_stderr :: bool

text \<open>\<open>dict(d)\<close> and \<open>{}\<close>: a new object.\<close>

definition new_dict :: "pydict \<Rightarrow> heap \<Rightarrow> nat \<times> heap" where
  "new_dict d h = (length h, h @ [d])"

text \<open>\<open>rv.update(overrides)\<close>: an existing key keeps its place, a new one goes last.\<close>

definition dict_update :: "nat \<Rightarrow> pydict \<Rightarrow> heap \<Rightarrow> heap" where
  "dict_update a items h = h[a := fold (\<lambda>(k, v). AList.update k v) items (h ! a)]"

text \<open>\<open>self.env = env or {}\<close>\<close>

definition CliRunner :: "string \<Rightarrow> nat option \<Rightarrow> bool \<Rightarrow> bool \<Rightarrow> heap \<Rightarrow> runner \<times> heap" where
  "CliRunner cs env_arg echo_arg mix h =
     (let (a, h1) = (case env_arg of
                       None \<Rightarrow> new_dict [] h
                     | Some e \<Rightarrow> if h ! e = [] then new_dict [] h else (e, h))
      in (\<lparr> charset = cs, env = a, echo_stdin = echo_arg, mix_stderr = mix \<rparr>, h1))"

definition make_env :: "runner \<Rightarrow> nat option \<Rightarrow> heap \<Rightarrow> nat \<times> heap" where
  "make_env self overrides h =
     (let (rv, h1) = new_dict (h ! env self) h
      in (case overrides of
            None \<Rightarrow> (rv, h1)
          | Some ov \<Rightarrow> if h1 ! ov = [] then (rv, h1) else (rv, dict_update rv (h1 ! ov) h1)))"

text \<open>
  \<open>exc_info\<close> is the triple of \<open>sys.exc_info()\<close>, kept here as the exception it is about.
\<close>

record result =
  runner :: runner
  stdout_bytes :: bytes
  stderr_bytes :: "bytes option"
  return_value :: py_value
  exit_code :: py_value
  exception :: "exn option"
  exc_info :: "exn option"

definition stdout :: "result \<Rightarrow> exn + str" where
  "stdout self =
     (case bytes_decode (stdout_bytes self) (charset (runner self)) Replace of
        Inl e \<Rightarrow> Inl e
      | Inr t \<Rightarrow> Inr (py_replace t [CR, LF] [LF]))"

definition output' :: "result \<Rightarrow> exn + str" where
  "output' self = stdout self"

definition stderr :: "result \<Rightarrow> exn + str" where
  "stderr self =
     (case stderr_bytes self of
        None \<Rightarrow> Inl ValueError
      | Some b \<Rightarrow>
          (case bytes_decode b (charset (runner self)) Replace of
             Inl e \<Rightarrow> Inl e
           | Inr t \<Rightarrow> Inr (py_replace t [CR, LF] [LF])))"

section \<open>Text wrappers\<close>

text \<open>
  \<open>_NamedTextIOWrapper\<close> adds a name and a mode to \<open>io.TextIOWrapper\<close>, which belongs to
  the Python library. A writer encodes what is written, with \<open>\n\<close> written as the line
  separator of the platform, and keeps the bytes until it is flushed.
\<close>

record text_writer =
  w_codec :: codec
  w_errors :: errors
  w_newline :: str
  w_pending :: bytes

definition text_write :: "str \<Rightarrow> text_writer \<Rightarrow> exn + text_writer" where
  "text_write s w =
     (case encode (w_codec w) (w_errors w) (py_replace s [LF] (w_newline w)) of
        Inl e \<Rightarrow> Inl e
      | Inr b \<Rightarrow> Inr (w\<lparr>w_pending := w_pending w @ b\<rparr>))"

text \<open>
  A reader takes chunks of 8192 bytes from its buffer with \<open>read1\<close>, decodes them with
  an incremental decoder (\<open>errors\<close> is \<open>strict\<close>) and reads every \<open>\r\n\<close> and \<open>\r\<close> as
  \<open>\n\<close>; a \<open>\r\<close> at the end of a chunk waits for the next chunk.
\<close>

record text_reader =
  r_codec :: codec
  r_buffer :: bytesio
  r_undecoded :: bytes
  r_pendingcr :: bool
  r_decoded :: str

definition newline_decode :: "bool \<Rightarrow> str \<Rightarrow> bool \<Rightarrow> str \<times> bool" where
  "newline_decode pendingcr out final =
     (let (o1, p1) = (if pendingcr \<and> (out \<noteq> [] \<or> final) then (CR # out, False)
                      else (out, pendingcr));
          (o2, p2) = (if o1 \<noteq> [] \<and> last o1 = CR \<and> \<not> final then (butlast o1, True)
                      else (o1, p1))
      in (py_replace (py_replace o2 [CR, LF] [LF]) [CR] [LF], p2))"

text \<open>The result says whether the end of the buffer has not been reached.\<close>

definition read_chunk :: "text_reader \<Rightarrow> (exn + bool) \<times> text_reader" where
  "read_chunk r =
     (let (chunk, b) = bytesio_read 8192 (r_buffer r);
          eof = (chunk = []);
          r1 = r\<lparr>r_buffer := b\<rparr>
      in case decode_incr (r_codec r) Strict eof (r_undecoded r @ chunk) of
           Inl e \<Rightarrow> (Inl e, r1)
         | Inr (t, left) \<Rightarrow>
             (let (t', cr) = newline_decode (r_pendingcr r) t eof
              in (Inr (\<not> eof),
                  r1\<lparr>r_undecoded := left, r_pendingcr := cr, r_decoded := r_decoded r @ t'\<rparr>)))"

lemma read_chunk_progress:
  assumes "read_chunk r = (Inr True, r1)"
  shows "length (unread (r_buffer r1)) < length (unread (r_buffer r))"
proof -
  let ?rv = "take 8192 (unread (r_buffer r))"
  from assms have ne: "?rv \<noteq> []" and b: "r_buffer r1 = (r_buffer r)\<lparr>pos := pos (r_buffer r) + length ?rv\<rparr>"
    by (auto simp: read_chunk_def bytesio_read_def Let_def split: sum.splits prod.splits)
  from ne have "unread (r_buffer r) \<noteq> []" by auto
  then have "pos (r_buffer r) < length (buf (r_buffer r))" by (simp add: unread_def)
  moreover from ne have "0 < length ?rv" by simp
  ultimately show ?thesis using b by (simp add: unread_def)
qed

text \<open>Read chunks until the decoded characters are enough or the buffer is at its end.\<close>

function fill_until :: "(str \<Rightarrow> bool) \<Rightarrow> text_reader \<Rightarrow> exn option \<times> text_reader" where
  "fill_until enough r =
     (if enough (r_decoded r) then (None, r)
      else (case read_chunk r of
              (Inl e, r1) \<Rightarrow> (Some e, r1)
            | (Inr again, r1) \<Rightarrow> if again then fill_until enough r1 else (None, r1)))"
  by pat_completeness auto
termination
  by (relation "measure (\<lambda>(enough, r). length (unread (r_buffer r)))")
     (auto dest: read_chunk_progress [OF sym])

definition text_readline :: "text_reader \<Rightarrow> (exn + str) \<times> text_reader" where
  "text_readline r =
     (case fill_until (\<lambda>d. LF \<in> set d) r of
        (Some e, r1) \<Rightarrow> (Inl e, r1)
      | (None, r1) \<Rightarrow>
          (let d = r_decoded r1;
               line = takeWhile (\<lambda>c. c \<noteq> LF) d @ take 1 (dropWhile (\<lambda>c. c \<noteq> LF) d)
           in (Inr line, r1\<lparr>r_decoded := drop (length line) d\<rparr>)))"

text \<open>\<open>read(n)\<close> for a number of characters \<open>n\<close>\<close>

definition text_read :: "nat \<Rightarrow> text_reader \<Rightarrow> (exn + str) \<times> text_reader" where
  "text_read n r =
     (case fill_until (\<lambda>d. n \<le> length d) r of
        (Some e, r1) \<Rightarrow> (Inl e, r1)
      | (None, r1) \<Rightarrow> (Inr (take n (r_decoded r1)), r1\<lparr>r_decoded := drop n (r_decoded r1)\<rparr>))"

section \<open>The isolation session\<close>

text \<open>
  The objects that \<open>isolation\<close> creates: \<open>input\<close> (the reader bound to \<open>sys.stdin\<close>, over
  the input stream, which is wrapped in an \<open>EchoingStdin\<close> when \<open>echoing\<close>),
  \<open>bytes_output\<close> under the writer bound to \<open>sys.stdout\<close>, and \<open>bytes_error\<close> under the
  writer bound to \<open>sys.stderr\<close> (both \<open>None\<close> when \<open>sys.stderr\<close> is \<open>sys.stdout\<close>).
\<close>

record session =
  input_wrapper :: text_reader
  echoing :: bool
  bytes_output :: bytes
  stdout_wrapper :: text_writer
  bytes_error :: "bytes option"
  stderr_wrapper :: "text_writer option"
  default_color :: bool

definition stdout_write :: "str \<Rightarrow> session \<Rightarrow> unit outcome \<times> session" where
  "stdout_write t s =
     (case text_write t (stdout_wrapper s) of
        Inl e \<Rightarrow> (Raises e, s)
      | Inr w \<Rightarrow> (Returns (), s\<lparr>stdout_wrapper := w\<rparr>))"

definition stdout_flush :: "session \<Rightarrow> session" where
  "stdout_flush s =
     s\<lparr>bytes_output := bytes_output s @ w_pending (stdout_wrapper s),
       stdout_wrapper := (stdout_wrapper s)\<lparr>w_pending := []\<rparr>\<rparr>"

definition stdin_readline :: "session \<Rightarrow> str outcome \<times> session" where
  "stdin_readline s =
     (case text_readline (input_wrapper s) of
        (Inl e, r) \<Rightarrow> (Raises e, s\<lparr>input_wrapper := r\<rparr>)
      | (Inr line, r) \<Rightarrow> (Returns line, s\<lparr>input_wrapper := r\<rparr>))"

definition stdin_read :: "nat \<Rightarrow> session \<Rightarrow> str outcome \<times> session" where
  "stdin_read n s =
     (case text_read n (input_wrapper s) of
        (Inl e, r) \<Rightarrow> (Raises e, s\<lparr>input_wrapper := r\<rparr>)
      | (Inr t, r) \<Rightarrow> (Returns t, s\<lparr>input_wrapper := r\<rparr>))"

text \<open>
  \<open>sys.stdin.buffer.read(n)\<close>, a read of the bytes under the reader: through the
  \<open>EchoingStdin\<close> when there is one, whose sink is \<open>bytes_output\<close>.
\<close>

definition stdin_buffer_read :: "int \<Rightarrow> session \<Rightarrow> bytes \<times> session" where
  "stdin_buffer_read n s =
     (if echoing s then
        (let (rv, e) = echo_read n \<lparr> e_input = r_buffer (input_wrapper s),
                                     e_output = bytes_output s \<rparr>
         in (rv, s\<lparr>input_wrapper := (input_wrapper s)\<lparr>r_buffer := e_input e\<rparr>,
                   bytes_output := e_output e\<rparr>))
      else
        (let (rv, b) = bytesio_read n (r_buffer (input_wrapper s))
         in (rv, s\<lparr>input_wrapper := (input_wrapper s)\<lparr>r_buffer := b\<rparr>\<rparr>)))"

subsection \<open>The hooks\<close>

definition visible_input :: "str option \<Rightarrow> session \<Rightarrow> str outcome \<times> session" where
  "visible_input prompt s =
     (case stdout_write (case prompt of None \<Rightarrow> [] | Some p \<Rightarrow> p) s of
        (Raises e, s1) \<Rightarrow> (Raises e, s1)
      | (Returns u, s1) \<Rightarrow>
          (case stdin_readline s1 of
             (Raises e, s2) \<Rightarrow> (Raises e, s2)
           | (Returns line, s2) \<Rightarrow>
               (let val = py_rstrip line [CR, LF]
                in case stdout_write (val @ [LF]) s2 of
                     (Raises e, s3) \<Rightarrow> (Raises e, s3)
                   | (Returns u', s3) \<Rightarrow> (Returns val, stdout_flush s3))))"

definition hidden_input :: "str option \<Rightarrow> session \<Rightarrow> str outcome \<times> session" where
  "hidden_input prompt s =
     (case stdout_write ((case prompt of None \<Rightarrow> [] | Some p \<Rightarrow> p) @ [LF]) s of
        (Raises e, s1) \<Rightarrow> (Raises e, s1)
      | (Returns u, s1) \<Rightarrow>
          (case stdin_readline (stdout_flush s1) of
             (Raises e, s2) \<Rightarrow> (Raises e, s2)
           | (Returns line, s2) \<Rightarrow> (Returns (py_rstrip line [CR, LF]), s2)))"

definition getchar :: "bool \<Rightarrow> session \<Rightarrow> str outcome \<times> session" where
  "getchar echo_arg s =
     (case stdin_read 1 s of
        (Raises e, s1) \<Rightarrow> (Raises e, s1)
      | (Returns char, s1) \<Rightarrow>
          (if echo_arg then
             (case stdout_write char s1 of
                (Raises e, s2) \<Rightarrow> (Raises e, s2)
              | (Returns u, s2) \<Rightarrow> (Returns char, stdout_flush s2))
           else (Returns char, s1)))"

definition should_strip_ansi :: "bool option \<Rightarrow> session \<Rightarrow> bool" where
  "should_strip_ansi color s = (case color of None \<Rightarrow> \<not> default_color s | Some c \<Rightarrow> \<not> c)"

section \<open>The process\<close>

text \<open>
  The state of the interpreter and of the operating system that \<open>testing.py\<close> reads and
  changes: \<open>os.environ\<close>, \<open>os.linesep\<close>, the dictionaries, the bindings of \<open>sys.stdin\<close>,
  \<open>sys.stdout\<close>, \<open>sys.stderr\<close>, \<open>formatting.FORCED_WIDTH\<close>, the four hooks of \<open>termui\<close>
  and \<open>utils\<close>, the working directory and the directories that exist. A binding is
  either what was bound before (known by a number) or an object of a session (known by
  its name). \<open>tmp_name\<close> is the name \<open>mkdtemp\<close> picks under a parent, \<open>undeletable\<close> the
  directories the process cannot remove. Variable names and values are taken to be ones
  the operating system accepts.
\<close>

datatype binding = Ambient nat | Installed string

type_synonym environ = "string \<rightharpoonup> str"

record world =
  os_environ :: environ
  os_linesep :: str
  dict_heap :: heap
  sys_stdin :: binding
  sys_stdout :: binding
  sys_stderr :: binding
  forced_width :: "nat option"
  visible_prompt_func :: binding
  hidden_prompt_func :: binding
  getchar_func :: binding
  should_strip_ansi_func :: binding
  cwd :: string
  dirs :: "string list"
  undeletable :: "string list"
  tmp_name :: "string option \<Rightarrow> string"

text \<open>\<open>os.environ[key] = value\<close> and \<open>del os.environ[key]\<close>\<close>

definition environ_setitem :: "string \<Rightarrow> py_value \<Rightarrow> environ \<Rightarrow> exn + environ" where
  "environ_setitem key v E = (case v of PyStr t \<Rightarrow> Inr (E(key \<mapsto> t)) | _ \<Rightarrow> Inl TypeError)"

definition environ_delitem :: "string \<Rightarrow> environ \<Rightarrow> exn + environ" where
  "environ_delitem key E = (if E key = None then Inl KeyError else Inr (E(key := None)))"

section \<open>\<open>CliRunner.isolation\<close>\<close>

text \<open>The loop of the \<open>try\<close> block: what was raised, \<open>old_env\<close> and the environment.\<close>

fun override_environ ::
  "pydict \<Rightarrow> (string \<times> str option) list \<Rightarrow> environ
     \<Rightarrow> exn option \<times> (string \<times> str option) list \<times> environ" where
  "override_environ [] old_env E = (None, old_env, E)"
| "override_environ ((key, v) # items) old_env E =
     (let old_env1 = AList.update key (E key) old_env
      in if v = PyNone then
           override_environ items old_env1
             (case environ_delitem key E of Inl e \<Rightarrow> E | Inr E1 \<Rightarrow> E1)
         else
           (case environ_setitem key v E of
              Inl e \<Rightarrow> (Some e, old_env1, E)
            | Inr E1 \<Rightarrow> override_environ items old_env1 E1))"

text \<open>The loop of the \<open>finally\<close> block.\<close>

fun restore_environ :: "(string \<times> str option) list \<Rightarrow> environ \<Rightarrow> exn option \<times> environ" where
  "restore_environ [] E = (None, E)"
| "restore_environ ((key, v) # items) E =
     (case v of
        None \<Rightarrow>
          restore_environ items (case environ_delitem key E of Inl e \<Rightarrow> E | Inr E1 \<Rightarrow> E1)
      | Some t \<Rightarrow>
          (case environ_setitem key (PyStr t) E of
             Inl e \<Rightarrow> (Some e, E)
           | Inr E1 \<Rightarrow> restore_environ items E1))"

record saved =
  old_stdin :: binding
  old_stdout :: binding
  old_stderr :: binding
  old_forced_width :: "nat option"
  old_visible_prompt_func :: binding
  old_hidden_prompt_func :: binding
  old_getchar_func :: binding
  old_should_strip_ansi :: binding

text \<open>
  From the start of \<open>isolation\<close> to \<open>old_env = {}\<close>: the session, the saved bindings, the
  address of \<open>env\<close> and the process; or what was raised on the way.
\<close>

definition isolation_setup ::
  "runner \<Rightarrow> input_payload \<Rightarrow> nat option \<Rightarrow> bool \<Rightarrow> world
     \<Rightarrow> (exn \<times> world) + (session \<times> saved \<times> nat \<times> world)" where
  "isolation_setup self input env_arg color w =
     (case make_input_stream input (charset self) of
        Inl e \<Rightarrow> Inl (e, w)
      | Inr inp \<Rightarrow>
          (let sv = \<lparr> old_stdin = sys_stdin w, old_stdout = sys_stdout w,
                      old_stderr = sys_stderr w, old_forced_width = forced_width w,
                      old_visible_prompt_func = visible_prompt_func w,
                      old_hidden_prompt_func = hidden_prompt_func w,
                      old_getchar_func = getchar_func w,
                      old_should_strip_ansi = should_strip_ansi_func w \<rparr>;
               w1 = w\<lparr>forced_width := Some 80\<rparr>;
               (env_a, h) = make_env self env_arg (dict_heap w1);
               w2 = w1\<lparr>dict_heap := h\<rparr>
           in case lookup_codec (charset self) of
                None \<Rightarrow> Inl (LookupError, w2)
              | Some c \<Rightarrow>
                  (let sess =
                         \<lparr> input_wrapper = \<lparr> r_codec = c, r_buffer = inp, r_undecoded = [],
                                             r_pendingcr = False, r_decoded = [] \<rparr>,
                           echoing = echo_stdin self,
                           bytes_output = [],
                           stdout_wrapper = \<lparr> w_codec = c, w_errors = Strict,
                                              w_newline = os_linesep w, w_pending = [] \<rparr>,
                           bytes_error = (if mix_stderr self then None else Some []),
                           stderr_wrapper =
                             (if mix_stderr self then None
                              else Some \<lparr> w_codec = c, w_errors = BackslashReplace,
                                          w_newline = os_linesep w, w_pending = [] \<rparr>),
                           default_color = color \<rparr>;
                       w3 = w2\<lparr>sys_stdin := Installed ''<stdin>'',
                               sys_stdout := Installed ''<stdout>'',
                               sys_stderr := Installed (if mix_stderr self then ''<stdout>''
                                                        else ''<stderr>''),
                               visible_prompt_func := Installed ''visible_input'',
                               hidden_prompt_func := Installed ''hidden_input'',
                               getchar_func := Installed ''_getchar'',
                               should_strip_ansi_func := Installed ''should_strip_ansi''\<rparr>
                   in Inr (sess, sv, env_a, w3))))"

text \<open>The \<open>finally\<close> block, with the outcome it was entered with.\<close>

definition isolation_finally ::
  "saved \<Rightarrow> (string \<times> str option) list \<Rightarrow> 'a outcome \<Rightarrow> world \<Rightarrow> 'a outcome \<times> world" where
  "isolation_finally sv old_env r w =
     (case restore_environ old_env (os_environ w) of
        (Some e, E) \<Rightarrow> (Raises e, w\<lparr>os_environ := E\<rparr>)
      | (None, E) \<Rightarrow>
          (r, w\<lparr>os_environ := E,
                sys_stdout := old_stdout sv,
                sys_stderr := old_stderr sv,
                sys_stdin := old_stdin sv,
                visible_prompt_func := old_visible_prompt_func sv,
                hidden_prompt_func := old_hidden_prompt_func sv,
                getchar_func := old_getchar_func sv,
                should_strip_ansi_func := old_should_strip_ansi sv,
                forced_width := old_forced_width sv\<rparr>))"

text \<open>
  Entering the context manager: from the start of \<open>isolation\<close> to its \<open>yield\<close>. When the
  loop over \<open>env\<close> raises, the \<open>finally\<close> block runs before the exception goes on.
\<close>

definition isolation_enter ::
  "runner \<Rightarrow> input_payload \<Rightarrow> nat option \<Rightarrow> bool \<Rightarrow> world
     \<Rightarrow> (exn \<times> world) + (session \<times> saved \<times> (string \<times> str option) list \<times> world)" where
  "isolation_enter self input env_arg color w =
     (case isolation_setup self input env_arg color w of
        Inl (e, w1) \<Rightarrow> Inl (e, w1)
      | Inr (sess, sv, env_a, w1) \<Rightarrow>
          (case override_environ (dict_heap w1 ! env_a) [] (os_environ w1) of
             (Some e, old_env, E) \<Rightarrow>
               (case isolation_finally sv old_env (Raises e :: unit outcome) (w1\<lparr>os_environ := E\<rparr>) of
                  (Raises x, w2) \<Rightarrow> Inl (x, w2)
                | (Returns u, w2) \<Rightarrow> Inl (e, w2))
           | (None, old_env, E) \<Rightarrow> Inr (sess, sv, old_env, w1\<lparr>os_environ := E\<rparr>)))"

text \<open>
  The context manager around the body of a \<open>with\<close> statement. The body is given the
  session (it reaches it through \<open>sys.stdin\<close>, \<open>sys.stdout\<close>, \<open>sys.stderr\<close>, the hooks and
  the two buffers yielded) and the process; the \<open>finally\<close> block runs however the body
  ends.
\<close>

definition isolation ::
  "runner \<Rightarrow> input_payload \<Rightarrow> nat option \<Rightarrow> bool
     \<Rightarrow> (session \<Rightarrow> world \<Rightarrow> 'a outcome \<times> session \<times> world) \<Rightarrow> world \<Rightarrow> 'a outcome \<times> world" where
  "isolation self input env_arg color body w =
     (case isolation_enter self input env_arg color w of
        Inl (e, w1) \<Rightarrow> (Raises e, w1)
      | Inr (sess, sv, old_env, w1) \<Rightarrow>
          (case body sess w1 of (r, s1, w2) \<Rightarrow> isolation_finally sv old_env r w2))"

section \<open>\<open>CliRunner.invoke\<close>\<close>

text \<open>
  The command: its \<open>name\<close> and its entry point \<open>main(args, prog_name, **extra)\<close>, which
  runs in the session and the process and returns a value or raises.
\<close>

record cli =
  name :: "str option"
  main :: "str list \<Rightarrow> py_value \<Rightarrow> pydict \<Rightarrow> session \<Rightarrow> world
             \<Rightarrow> py_value outcome \<times> session \<times> world"

datatype args = ArgsNone | ArgsStr str | ArgsList "str list"

definition get_default_prog_name :: "cli \<Rightarrow> str" where
  "get_default_prog_name c =
     (case name c of
        None \<Rightarrow> ascii_text ''root''
      | Some n \<Rightarrow> if n = [] then ascii_text ''root'' else n)"

text \<open>
  The \<open>try\<close> statement around the call of \<open>main\<close>, without its \<open>finally\<close>: from how the
  call ended to \<open>return_value\<close>, \<open>exit_code\<close>, \<open>exception\<close> and \<open>exc_info\<close>, or to what goes
  on being raised. \<open>sys.stdout\<close> is taken to be still the writer of the session when the
  handler runs (the entry point has not bound another object to it).
\<close>

definition invoke_try ::
  "py_value outcome \<Rightarrow> bool \<Rightarrow> session
     \<Rightarrow> (py_value \<times> py_value \<times> exn option \<times> exn option) outcome \<times> session" where
  "invoke_try r catch_exceptions s =
     (case r of
        Returns v \<Rightarrow> (Returns (v, PyInt 0, None, None), s)
      | Raises e \<Rightarrow>
          (case e of
             SystemExit code \<Rightarrow>
               (let ec = (if code = PyNone then PyInt 0 else code);
                    ex = (if ne_zero ec then Some e else None)
                in if \<not> isinstance_int ec then
                     (case stdout_write (py_str ec) s of
                        (Raises x, s1) \<Rightarrow> (Raises x, s1)
                      | (Returns u, s1) \<Rightarrow>
                          (case stdout_write [LF] s1 of
                             (Raises x, s2) \<Rightarrow> (Raises x, s2)
                           | (Returns u', s2) \<Rightarrow> (Returns (PyNone, PyInt 1, ex, Some e), s2)))
                   else (Returns (PyNone, ec, ex, Some e), s))
           | _ \<Rightarrow>
               (if isinstance_Exception e then
                  (if \<not> catch_exceptions then (Raises e, s)
                   else (Returns (PyNone, PyInt 1, Some e, Some e), s))
                else (Raises e, s))))"

text \<open>
  \<open>if isinstance(args, str): args = shlex.split(args)\<close>, then \<open>args or ()\<close>.
  \<open>shlex.split\<close> belongs to the Python library and is a parameter.
\<close>

definition split_args :: "(str \<Rightarrow> exn + str list) \<Rightarrow> args \<Rightarrow> exn + str list" where
  "split_args shlex_split a =
     (case a of ArgsStr t \<Rightarrow> shlex_split t | ArgsList l \<Rightarrow> Inr l | ArgsNone \<Rightarrow> Inr [])"

text \<open>\<open>extra.pop("prog_name")\<close>, or the default name: the name and what is left of \<open>extra\<close>.\<close>

definition pop_prog_name :: "cli \<Rightarrow> pydict \<Rightarrow> py_value \<times> pydict" where
  "pop_prog_name c extra =
     (case map_of extra ''prog_name'' of
        Some v \<Rightarrow> (v, AList.delete ''prog_name'' extra)
      | None \<Rightarrow> (PyStr (get_default_prog_name c), extra))"

text \<open>The body of the \<open>with\<close> statement.\<close>

definition invoke_with ::
  "(str \<Rightarrow> exn + str list) \<Rightarrow> runner \<Rightarrow> cli \<Rightarrow> args \<Rightarrow> bool \<Rightarrow> pydict \<Rightarrow> session \<Rightarrow> world
     \<Rightarrow> (bytes \<times> bytes option \<times> py_value \<times> py_value \<times> exn option \<times> exn option) outcome
        \<times> session \<times> world" where
  "invoke_with shlex_split self c a catch_exceptions extra sess w =
     (case split_args shlex_split a of
        Inl e \<Rightarrow> (Raises e, sess, w)
      | Inr argv \<Rightarrow>
          (let (prog_name, extra1) = pop_prog_name c extra;
               (r, s1, w1) = main c argv prog_name extra1 sess w;
               (t, s2) = invoke_try r catch_exceptions s1;
               s3 = stdout_flush s2;
               so = bytes_output s3;
               se = (if mix_stderr self then None else bytes_error s3)
           in case t of
                Raises e \<Rightarrow> (Raises e, s3, w1)
              | Returns (rv, ec, ex, ei) \<Rightarrow> (Returns (so, se, rv, ec, ex, ei), s3, w1)))"

definition invoke ::
  "(str \<Rightarrow> exn + str list) \<Rightarrow> runner \<Rightarrow> cli \<Rightarrow> args \<Rightarrow> input_payload \<Rightarrow> nat option \<Rightarrow> bool
     \<Rightarrow> bool \<Rightarrow> pydict \<Rightarrow> world \<Rightarrow> result outcome \<times> world" where
  "invoke shlex_split self c a input env_arg catch_exceptions color extra w =
     (case isolation self input env_arg color
             (invoke_with shlex_split self c a catch_exceptions extra) w of
        (Raises e, w1) \<Rightarrow> (Raises e, w1)
      | (Returns (so, se, rv, ec, ex, ei), w1) \<Rightarrow>
          (Returns \<lparr> runner = self, stdout_bytes = so, stderr_bytes = se, return_value = rv,
                     exit_code = ec, exception = ex, exc_info = ei \<rparr>, w1))"

section \<open>\<open>CliRunner.isolated_filesystem\<close>\<close>

definition path_under :: "string \<Rightarrow> string \<Rightarrow> bool" where
  "path_under t p = (p = t \<or> take (Suc (length t)) p = t @ ''/'')"

text \<open>
  \<open>tempfile.mkdtemp(dir=temp_dir)\<close> makes a directory that did not exist; \<open>os.chdir\<close>
  wants an existing directory; \<open>shutil.rmtree\<close> removes a directory and all under it, or
  raises \<open>OSError\<close> (taken here to remove nothing then).
\<close>

definition mkdtemp :: "string option \<Rightarrow> world \<Rightarrow> exn + (string \<times> world)" where
  "mkdtemp dir w =
     (let t = tmp_name w dir
      in if (case dir of None \<Rightarrow> False | Some d \<Rightarrow> d \<notin> set (dirs w)) then Inl OSError
         else if t \<in> set (dirs w) then Inl OSError
         else Inr (t, w\<lparr>dirs := t # dirs w\<rparr>))"

definition chdir :: "string \<Rightarrow> world \<Rightarrow> exn + world" where
  "chdir p w = (if p \<in> set (dirs w) then Inr (w\<lparr>cwd := p\<rparr>) else Inl OSError)"

definition rmtree :: "string \<Rightarrow> world \<Rightarrow> exn option \<times> world" where
  "rmtree t w =
     (if t \<notin> set (dirs w) then (Some OSError, w)
      else if list_ex (\<lambda>p. path_under t p \<and> p \<in> set (undeletable w)) (dirs w) then (Some OSError, w)
      else (None, w\<lparr>dirs := filter (\<lambda>p. \<not> path_under t p) (dirs w)\<rparr>))"

definition isolated_filesystem ::
  "runner \<Rightarrow> string option \<Rightarrow> (string \<Rightarrow> world \<Rightarrow> 'a outcome \<times> world) \<Rightarrow> world
     \<Rightarrow> 'a outcome \<times> world" where
  "isolated_filesystem self temp_dir body w =
     (let cwd0 = cwd w
      in case mkdtemp temp_dir w of
           Inl e \<Rightarrow> (Raises e, w)
         | Inr (t, w1) \<Rightarrow>
             (case chdir t w1 of
                Inl e \<Rightarrow> (Raises e, w1)
              | Inr w2 \<Rightarrow>
                  (case body t w2 of
                     (r, w3) \<Rightarrow>
                       (case chdir cwd0 w3 of
                          Inl e \<Rightarrow> (Raises e, w3)
                        | Inr w4 \<Rightarrow>
                            (if temp_dir = None then
                               (case rmtree t w4 of
                                  (None, w5) \<Rightarrow> (r, w5)
                                | (Some e, w5) \<Rightarrow>
                                    (if isinstance_OSError e then (r, w5) else (Raises e, w5)))
                             else (r, w4))))))"

section \<open>Properties\<close>

subsection \<open>Decoding with \<open>replace\<close> always gives a string\<close>

lemma decode_incr_replace_total:
  "\<exists>t left. decode_incr c Replace final bs = Inr (t, left)"
proof (induction c Replace final bs rule: decode_incr.induct)
  case (1 c final)
  then show ?case by simp
next
  case (2 c final b bs)
  then show ?case
    by (cases "decode_step c b bs") (auto split: sum.splits)
qed

lemma decode_replace_total: "\<exists>t. decode c Replace bs = Inr t"
  using decode_incr_replace_total [of c True bs] by (auto simp: decode_def)

subsection \<open>Examples\<close>

definition example_runner :: runner where
  "example_runner = \<lparr> charset = ''utf-8'', env = 0, echo_stdin = False, mix_stderr = True \<rparr>"

definition example_result :: "bytes option \<Rightarrow> result" where
  "example_result err =
     \<lparr> runner = example_runner, stdout_bytes = ''ok'' @ [CHR 0x0D, CHR 0x0A], stderr_bytes = err,
       return_value = PyNone, exit_code = PyInt 0, exception = None, exc_info = None \<rparr>"

definition example_world :: world where
  "example_world =
     \<lparr> os_environ = [''HOME'' \<mapsto> ascii_text ''/root'', ''LANG'' \<mapsto> ascii_text ''C''],
       os_linesep = [LF],
       dict_heap = [[(''LANG'', PyStr (ascii_text ''en''))],
                    [(''LANG'', PyStr (ascii_text ''fr'')), (''HOME'', PyNone),
                     (''NEW'', PyStr (ascii_text ''1''))]],
       sys_stdin = Ambient 0, sys_stdout = Ambient 1, sys_stderr = Ambient 2,
       forced_width = None,
       visible_prompt_func = Ambient 3, hidden_prompt_func = Ambient 4,
       getchar_func = Ambient 5, should_strip_ansi_func = Ambient 6,
       cwd = ''/home'', dirs = [''/home'', ''/tmp''], undeletable = [],
       tmp_name = (\<lambda>d. ''/tmp/tmpabc'') \<rparr>"

definition example_fs_body :: "string \<Rightarrow> world \<Rightarrow> unit outcome \<times> world" where
  "example_fs_body t w = (Raises KeyboardInterrupt, w\<lparr>dirs := (t @ ''/sub'') # dirs w\<rparr>)"

definition example_env_body :: "session \<Rightarrow> world \<Rightarrow> unit outcome \<times> session \<times> world" where
  "example_env_body s w =
     (Raises KeyboardInterrupt, s,
      w\<lparr>os_environ := (os_environ w)(''NEW'' \<mapsto> ascii_text ''2'', ''LANG'' := None)\<rparr>)"

definition example_session :: "bytes \<Rightarrow> session" where
  "example_session inp =
     \<lparr> input_wrapper = \<lparr> r_codec = utf8_codec, r_buffer = BytesIO inp, r_undecoded = [],
                         r_pendingcr = False, r_decoded = [] \<rparr>,
       echoing = False,
       bytes_output = [],
       stdout_wrapper = \<lparr> w_codec = utf8_codec, w_errors = Strict, w_newline = [LF],
                          w_pending = [] \<rparr>,
       bytes_error = None,
       stderr_wrapper = None,
       default_color = False \<rparr>"

text \<open>A body that removes the directory the process was in before the scope.\<close>

definition example_rmdir_body :: "string \<Rightarrow> world \<Rightarrow> unit outcome \<times> world" where
  "example_rmdir_body t w = (Returns (), w\<lparr>dirs := removeAll ''/home'' (dirs w)\<rparr>)"

text \<open>
  A \<open>shlex.split\<close> for the examples, a command whose entry point ends as given, and a
  command whose entry point returns \<open>sys.stdin.readline()\<close>.
\<close>

definition example_split :: "str \<Rightarrow> exn + str list" where
  "example_split t = Inr [t]"

definition example_cli :: "py_value outcome \<Rightarrow> cli" where
  "example_cli r = \<lparr> name = None, main = (\<lambda>argv prog_name extra s w. (r, s, w)) \<rparr>"

definition example_readline_cli :: cli where
  "example_readline_cli =
     \<lparr> name = None,
       main = (\<lambda>argv prog_name extra s w.
                 case stdin_readline s of
                   (Returns line, s1) \<Rightarrow> (Returns (PyStr line), s1, w)
                 | (Raises e, s1) \<Rightarrow> (Raises e, s1, w)) \<rparr>"

subsection \<open>The input stream\<close>

text \<open>
  C8. \<open>make_input_stream\<close>: a stream for which no binary reader is found is a
  \<open>TypeError\<close>; no input gives a stream over no bytes; a string that the character set
  encodes to \<open>b\<close> gives a stream over \<open>b\<close>; bytes give a stream over those bytes.
\<close>

theorem make_input_stream_cases:
  "make_input_stream (InputStream None) cs = Inl TypeError \<and>
   make_input_stream InputNone cs = Inr (BytesIO []) \<and>
   unread (BytesIO []) = [] \<and>
   (\<forall>b. str_encode t cs = Inr b \<longrightarrow>
        make_input_stream (InputStr t) cs = Inr (BytesIO b) \<and> unread (BytesIO b) = b) \<and>
   make_input_stream (InputBytes raw) cs = Inr (BytesIO raw) \<and>
   unread (BytesIO raw) = raw"
  by (simp add: make_input_stream_def BytesIO_def unread_def)

theorem make_input_stream_cases_witness:
  "str_encode (ascii_text ''Ada'') ''utf-8'' = Inr ''Ada'' \<and>
   make_input_stream (InputStr (ascii_text ''Ada'')) ''utf-8'' = Inr (BytesIO ''Ada'')"
proof -
  have e: "str_encode (ascii_text ''Ada'') ''utf-8'' = Inr ''Ada''" by code_simp
  with make_input_stream_cases [of "''utf-8''" "ascii_text ''Ada''"] show ?thesis by blast
qed

subsection \<open>The text views of a result\<close>

text \<open>
  C5. \<open>Result.stderr\<close> raises \<open>ValueError\<close> when \<open>stderr_bytes\<close> is \<open>None\<close>; when it holds
  bytes and the character set names a codec, it returns them decoded with \<open>replace\<close> and
  with \<open>\r\n\<close> replaced by \<open>\n\<close>.
\<close>

theorem stderr_accessor:
  "(stderr_bytes r = None \<longrightarrow> stderr r = Inl ValueError) \<and>
   (\<forall>b c. stderr_bytes r = Some b \<and> lookup_codec (charset (runner r)) = Some c \<longrightarrow>
      (\<exists>t. decode c Replace b = Inr t \<and> stderr r = Inr (py_replace t [CR, LF] [LF])))"
proof (intro conjI allI impI)
  assume "stderr_bytes r = None"
  then show "stderr r = Inl ValueError" by (simp add: stderr_def)
next
  fix b c
  assume h: "stderr_bytes r = Some b \<and> lookup_codec (charset (runner r)) = Some c"
  obtain t where t: "decode c Replace b = Inr t" using decode_replace_total by blast
  with h show "\<exists>t. decode c Replace b = Inr t \<and> stderr r = Inr (py_replace t [CR, LF] [LF])"
    by (simp add: stderr_def bytes_decode_def)
qed

theorem stderr_accessor_witness:
  "stderr (example_result None) = Inl ValueError \<and>
   stderr (example_result (Some (''no'' @ [CHR 0xFF, CHR 0x0D, CHR 0x0A]))) =
     Inr (ascii_text ''no'' @ [0xFFFD, LF])"
proof -
  let ?b = "''no'' @ [CHR 0xFF, CHR 0x0D, CHR 0x0A]"
  have n: "stderr_bytes (example_result None) = None"
    by (simp add: example_result_def)
  have s: "stderr_bytes (example_result (Some ?b)) = Some ?b \<and>
           lookup_codec (charset (runner (example_result (Some ?b)))) = Some utf8_codec"
    by (simp add: example_result_def example_runner_def lookup_codec_def)
  have d: "decode utf8_codec Replace ?b = Inr (ascii_text ''no'' @ [0xFFFD, CR, LF])"
    by (simp add: decode_def utf8_codec_def utf8_decode_step_def is_continuation_def
          ascii_text_def CR_def LF_def)
  have p: "py_replace (ascii_text ''no'' @ [0xFFFD, CR, LF]) [CR, LF] [LF] =
           ascii_text ''no'' @ [0xFFFD, LF]"
    by (simp add: ascii_text_def CR_def LF_def)
  from stderr_accessor [of "example_result None"] n
  have 1: "stderr (example_result None) = Inl ValueError" by blast
  from stderr_accessor [of "example_result (Some ?b)"] s
  obtain t where "decode utf8_codec Replace ?b = Inr t"
    and "stderr (example_result (Some ?b)) = Inr (py_replace t [CR, LF] [LF])" by blast
  with d p have 2: "stderr (example_result (Some ?b)) = Inr (ascii_text ''no'' @ [0xFFFD, LF])"
    by simp
  from 1 2 show ?thesis by simp
qed

text \<open>
  The replacement in the words of the specification: reading from the left, every
  \<open>\r\n\<close> becomes \<open>\n\<close>.
\<close>

fun crlf_to_lf :: "str \<Rightarrow> str" where
  "crlf_to_lf (a # b # t) =
     (if a = CR \<and> b = LF then LF # crlf_to_lf t else a # crlf_to_lf (b # t))"
| "crlf_to_lf t = t"

lemma py_replace_crlf: "py_replace t [CR, LF] [LF] = crlf_to_lf t"
  by (induction t rule: crlf_to_lf.induct) (auto simp: CR_def LF_def)

text \<open>
  C6. When the character set names a codec, \<open>stdout\<close>, \<open>output\<close> and (when \<open>stderr_bytes\<close> holds
  bytes) \<open>stderr\<close> are the bytes decoded with \<open>replace\<close>, with every \<open>\r\n\<close> replaced by
  \<open>\n\<close>; decoding with \<open>replace\<close> never raises \<open>UnicodeDecodeError\<close>, whatever the codec and
  the bytes, and neither do the three views.
\<close>

theorem text_views:
  "(\<forall>c. lookup_codec (charset (runner r)) = Some c \<longrightarrow>
      (\<exists>t. decode c Replace (stdout_bytes r) = Inr t \<and>
           stdout r = Inr (crlf_to_lf t) \<and> output' r = Inr (crlf_to_lf t)) \<and>
      (\<forall>b. stderr_bytes r = Some b \<longrightarrow>
           (\<exists>t. decode c Replace b = Inr t \<and> stderr r = Inr (crlf_to_lf t)))) \<and>
   (\<forall>c bs. decode c Replace bs \<noteq> Inl UnicodeDecodeError) \<and>
   stdout r \<noteq> Inl UnicodeDecodeError \<and> output' r \<noteq> Inl UnicodeDecodeError \<and>
   stderr r \<noteq> Inl UnicodeDecodeError"
proof -
  have tot: "\<And>c bs. \<exists>t. decode c Replace bs = Inr t" by (rule decode_replace_total)
  have a: "\<forall>c. lookup_codec (charset (runner r)) = Some c \<longrightarrow>
      (\<exists>t. decode c Replace (stdout_bytes r) = Inr t \<and>
           stdout r = Inr (crlf_to_lf t) \<and> output' r = Inr (crlf_to_lf t)) \<and>
      (\<forall>b. stderr_bytes r = Some b \<longrightarrow>
           (\<exists>t. decode c Replace b = Inr t \<and> stderr r = Inr (crlf_to_lf t)))"
  proof (intro allI impI conjI)
    fix c assume c: "lookup_codec (charset (runner r)) = Some c"
    obtain t where "decode c Replace (stdout_bytes r) = Inr t" using tot by blast
    with c show "\<exists>t. decode c Replace (stdout_bytes r) = Inr t \<and>
           stdout r = Inr (crlf_to_lf t) \<and> output' r = Inr (crlf_to_lf t)"
      by (simp add: stdout_def output'_def bytes_decode_def py_replace_crlf)
  next
    fix c b assume c: "lookup_codec (charset (runner r)) = Some c" and b: "stderr_bytes r = Some b"
    obtain t where "decode c Replace b = Inr t" using tot by blast
    with c b show "\<exists>t. decode c Replace b = Inr t \<and> stderr r = Inr (crlf_to_lf t)"
      by (simp add: stderr_def bytes_decode_def py_replace_crlf)
  qed
  have b: "\<forall>c bs. decode c Replace bs \<noteq> Inl UnicodeDecodeError"
    using tot by (metis sum.distinct(1))
  have so: "stdout r \<noteq> Inl UnicodeDecodeError"
    using b by (auto simp: stdout_def bytes_decode_def split: option.splits sum.splits)
  have se: "stderr r \<noteq> Inl UnicodeDecodeError"
    using b by (auto simp: stderr_def bytes_decode_def split: option.splits sum.splits)
  from a b so se show ?thesis by (simp add: output'_def)
qed

theorem text_views_witness:
  "stdout (example_result None) = Inr (ascii_text ''ok'' @ [LF]) \<and>
   output' (example_result None) = Inr (ascii_text ''ok'' @ [LF])"
proof -
  have c: "lookup_codec (charset (runner (example_result None))) = Some utf8_codec"
    by (simp add: example_result_def example_runner_def lookup_codec_def)
  have d: "decode utf8_codec Replace (stdout_bytes (example_result None)) =
           Inr (ascii_text ''ok'' @ [CR, LF])"
    by (simp add: example_result_def decode_def utf8_codec_def utf8_decode_step_def
          ascii_text_def CR_def LF_def)
  have p: "crlf_to_lf (ascii_text ''ok'' @ [CR, LF]) = ascii_text ''ok'' @ [LF]"
    by (simp add: ascii_text_def CR_def LF_def)
  from text_views [of "example_result None"] c
  obtain t where "decode utf8_codec Replace (stdout_bytes (example_result None)) = Inr t"
    and "stdout (example_result None) = Inr (crlf_to_lf t)"
    and "output' (example_result None) = Inr (crlf_to_lf t)" by blast
  with d p show ?thesis by simp
qed


subsection \<open>\<open>EchoingStdin\<close>\<close>

lemma echo_each_output:
  "echo_each xs self = (xs, self\<lparr>e_output := e_output self @ concat xs\<rparr>)"
  by (induction xs arbitrary: self) (auto simp: echo_def)

lemma run_read_op_output:
  "run_read_op op self = (rvs, s) \<Longrightarrow> e_output s = e_output self @ concat rvs"
  by (cases op) (auto simp: echo_read_def echo_readline_def echo_readlines_def echo_iter_next_def
      echo_def echo_each_output split: prod.splits option.splits)

lemma run_read_ops_output:
  "run_read_ops ops self = (rvs, s) \<Longrightarrow> e_output s = e_output self @ concat rvs"
proof (induction ops arbitrary: self rvs s)
  case Nil
  then show ?case by simp
next
  case (Cons op ops)
  obtain r1 s1 where 1: "run_read_op op self = (r1, s1)" by (cases "run_read_op op self")
  obtain r2 s2 where 2: "run_read_ops ops s1 = (r2, s2)" by (cases "run_read_ops ops s1")
  from Cons.prems 1 2 have "rvs = r1 @ r2" "s = s2" by simp_all
  with run_read_op_output [OF 1] Cons.IH [OF 2] show ?case by simp
qed

text \<open>
  What \<open>read\<close>, \<open>readline\<close>, \<open>readlines\<close> and a step of the iteration return is what the
  wrapped stream returned, and when they return it has been appended to the sink, as it
  is; so after any sequence of these reads the sink has gained, in order, all the bytes
  they returned.
\<close>

lemma echoing_stdin_echoes:
  "(case echo_read n self of (rv, s) \<Rightarrow>
      rv = fst (bytesio_read n (e_input self)) \<and> e_output s = e_output self @ rv) \<and>
   (case echo_readline n self of (rv, s) \<Rightarrow>
      rv = fst (bytesio_readline n (e_input self)) \<and> e_output s = e_output self @ rv) \<and>
   (case echo_readlines self of (rvs, s) \<Rightarrow>
      rvs = fst (bytesio_readlines (e_input self)) \<and> e_output s = e_output self @ concat rvs) \<and>
   (case echo_iter_next self of
      (None, s) \<Rightarrow> fst (bytesio_next (e_input self)) = None \<and> e_output s = e_output self
    | (Some rv, s) \<Rightarrow>
        fst (bytesio_next (e_input self)) = Some rv \<and> e_output s = e_output self @ rv) \<and>
   (case run_read_ops ops self of (rvs, s) \<Rightarrow> e_output s = e_output self @ concat rvs)"
proof -
  have 5: "case run_read_ops ops self of (rvs, s) \<Rightarrow> e_output s = e_output self @ concat rvs"
    using run_read_ops_output by (cases "run_read_ops ops self") auto
  have 1: "case echo_read n self of (rv, s) \<Rightarrow>
      rv = fst (bytesio_read n (e_input self)) \<and> e_output s = e_output self @ rv"
    by (auto simp: echo_read_def echo_def split: prod.splits)
  have 2: "case echo_readline n self of (rv, s) \<Rightarrow>
      rv = fst (bytesio_readline n (e_input self)) \<and> e_output s = e_output self @ rv"
    by (auto simp: echo_readline_def echo_def split: prod.splits)
  have 3: "case echo_readlines self of (rvs, s) \<Rightarrow>
      rvs = fst (bytesio_readlines (e_input self)) \<and> e_output s = e_output self @ concat rvs"
    by (auto simp: echo_readlines_def echo_each_output split: prod.splits)
  have 4: "case echo_iter_next self of
      (None, s) \<Rightarrow> fst (bytesio_next (e_input self)) = None \<and> e_output s = e_output self
    | (Some rv, s) \<Rightarrow>
        fst (bytesio_next (e_input self)) = Some rv \<and> e_output s = e_output self @ rv"
    by (auto simp: echo_iter_next_def echo_def split: prod.splits option.splits)
  from 1 2 3 4 5 show ?thesis by blast
qed

text \<open>
  C3. The four methods echo, but the reads of the entry point do not reach them. With
  \<open>echo_stdin\<close> on, \<open>sys.stdin\<close> is a text wrapper over the \<open>EchoingStdin\<close>, and a text
  wrapper takes the bytes of its buffer with \<open>read1\<close>, which \<open>EchoingStdin\<close> does not
  define: \<open>__getattr__\<close> gives the \<open>read1\<close> of the wrapped stream. An entry point that
  returns \<open>sys.stdin.readline()\<close>, invoked with the input \<open>Ada\n\<close>, gets the line, and the
  captured output is empty.
\<close>

theorem echo_stdin_readline_not_echoed:
  "fst (invoke example_split (example_runner\<lparr>echo_stdin := True\<rparr>) example_readline_cli
          ArgsNone (InputBytes (''Ada'' @ [CHR 0x0A])) None True False [] example_world) =
   Returns \<lparr> runner = example_runner\<lparr>echo_stdin := True\<rparr>,
             stdout_bytes = [], stderr_bytes = None,
             return_value = PyStr (ascii_text ''Ada'' @ [LF]),
             exit_code = PyInt 0, exception = None, exc_info = None \<rparr>"
  by code_simp

subsection \<open>\<open>make_env\<close>\<close>

lemma map_of_fold_update:
  "distinct (map fst items) \<Longrightarrow>
   map_of (fold (\<lambda>(k, v). AList.update k v) items d) = map_of d ++ map_of items"
proof (induction items arbitrary: d)
  case Nil
  then show ?case by simp
next
  case (Cons kv items)
  obtain k v where kv: "kv = (k, v)" by (cases kv)
  from Cons.prems kv have nk: "map_of items k = None" and di: "distinct (map fst items)"
    by (auto simp: map_of_eq_None_iff)
  have "map_of (fold (\<lambda>(k, v). AList.update k v) ((k, v) # items) d) =
        map_of (AList.update k v d) ++ map_of items"
    using Cons.IH [OF di] by simp
  also have "\<dots> = (map_of d)(k \<mapsto> v) ++ map_of items" by (simp add: update_conv')
  also have "\<dots> = map_of d ++ map_of ((k, v) # items)"
    using nk by (auto simp: map_add_def fun_eq_iff split: option.splits)
  finally show ?case unfolding kv .
qed

lemma keys_fold_update:
  "fst ` set (fold (\<lambda>(k, v). AList.update k v) items d) = fst ` set d \<union> fst ` set items"
proof (induction items arbitrary: d)
  case Nil
  then show ?case by simp
next
  case (Cons kv items)
  obtain k v where kv: "kv = (k, v)" by (cases kv)
  have "fst ` set (AList.update k v d) = insert k (fst ` set d)"
    using dom_update [of k v d] by (simp add: dom_map_of_conv_image_fst)
  with Cons.IH [of "AList.update k v d"] kv show ?case by auto
qed

lemma distinct_fold_update:
  "distinct (map fst d) \<Longrightarrow> distinct (map fst (fold (\<lambda>(k, v). AList.update k v) items d))"
  by (induction items arbitrary: d) (auto simp: distinct_update)

lemma isolation_setup_make_env:
  assumes "isolation_setup self input env_arg color w = Inr (sess, sv, env_a, w1)"
  shows "make_env self env_arg (dict_heap w) = (env_a, dict_heap w1)"
    and "os_environ w1 = os_environ w"
  using assms
  by (auto simp: isolation_setup_def Let_def split: sum.splits prod.splits option.splits)

text \<open>
  C10. \<open>make_env\<close> returns a new dictionary whose entries are those of the runner's
  mapping and of the overrides, the overrides winning on the keys of both; the runner's
  mapping and every other dictionary are left as they were; and this dictionary is the
  one whose entries \<open>isolation\<close> applies.
\<close>

theorem make_env_union:
  assumes "env self < length h"
    and "\<forall>a. overrides = Some a \<longrightarrow> a < length h \<and> distinct (map fst (h ! a))"
  shows "case make_env self overrides h of
           (rv, h') \<Rightarrow>
             rv = length h \<and> length h' = Suc (length h) \<and>
             (\<forall>a < length h. h' ! a = h ! a) \<and>
             h' ! env self = h ! env self \<and>
             map_of (h' ! rv) =
               map_of (h ! env self) ++
               (case overrides of None \<Rightarrow> Map.empty | Some a \<Rightarrow> map_of (h ! a)) \<and>
             (\<forall>input color w sess sv env_a w1.
                dict_heap w = h \<and>
                isolation_setup self input overrides color w = Inr (sess, sv, env_a, w1) \<longrightarrow>
                env_a = rv \<and> dict_heap w1 = h')"
proof -
  obtain rv h' where m: "make_env self overrides h = (rv, h')"
    by (cases "make_env self overrides h")
  have heap: "rv = length h \<and> length h' = Suc (length h) \<and>
             (\<forall>a < length h. h' ! a = h ! a) \<and>
             h' ! env self = h ! env self \<and>
             map_of (h' ! rv) =
               map_of (h ! env self) ++
               (case overrides of None \<Rightarrow> Map.empty | Some a \<Rightarrow> map_of (h ! a))"
  proof (cases overrides)
    case None
    with assms m show ?thesis
      by (auto simp: make_env_def new_dict_def nth_append)
  next
    case (Some a)
    with assms have a: "a < length h" and d: "distinct (map fst (h ! a))" by auto
    show ?thesis
    proof (cases "h ! a = []")
      case True
      with Some assms a m show ?thesis
        by (auto simp: make_env_def new_dict_def nth_append)
    next
      case False
      with Some assms a d m show ?thesis
        by (auto simp: make_env_def new_dict_def dict_update_def nth_append map_of_fold_update)
    qed
  qed
  have iso: "\<forall>input color w sess sv env_a w1.
                dict_heap w = h \<and>
                isolation_setup self input overrides color w = Inr (sess, sv, env_a, w1) \<longrightarrow>
                env_a = rv \<and> dict_heap w1 = h'"
  proof (intro allI impI, elim conjE)
    fix input color w sess sv env_a w1
    assume hw: "dict_heap w = h"
      and su: "isolation_setup self input overrides color w = Inr (sess, sv, env_a, w1)"
    from isolation_setup_make_env(1) [OF su] hw m
    show "env_a = rv \<and> dict_heap w1 = h'" by simp
  qed
  show ?thesis unfolding m prod.case using heap iso by blast
qed

theorem make_env_union_witness:
  "fst (make_env example_runner (Some 1) (dict_heap example_world)) = 2 \<and>
   snd (make_env example_runner (Some 1) (dict_heap example_world)) ! 0 =
     [(''LANG'', PyStr (ascii_text ''en''))] \<and>
   map_of (snd (make_env example_runner (Some 1) (dict_heap example_world)) ! 2) ''LANG'' =
     Some (PyStr (ascii_text ''fr'')) \<and>
   map_of (snd (make_env example_runner (Some 1) (dict_heap example_world)) ! 2) ''HOME'' =
     Some PyNone"
proof -
  let ?h = "dict_heap example_world"
  have h: "?h = [[(''LANG'', PyStr (ascii_text ''en''))],
                 [(''LANG'', PyStr (ascii_text ''fr'')), (''HOME'', PyNone),
                  (''NEW'', PyStr (ascii_text ''1''))]]"
    by (simp add: example_world_def)
  have e: "env example_runner = 0" by (simp add: example_runner_def)
  have 1: "env example_runner < length ?h" unfolding h e by simp
  have 2: "\<forall>a. Some (1::nat) = Some a \<longrightarrow> a < length ?h \<and> distinct (map fst (?h ! a))"
    unfolding h by simp
  obtain rv h' where m: "make_env example_runner (Some 1) ?h = (rv, h')"
    by (cases "make_env example_runner (Some 1) ?h")
  have c: "rv = length ?h \<and> length h' = Suc (length ?h) \<and>
      (\<forall>a < length ?h. h' ! a = ?h ! a) \<and>
      h' ! env example_runner = ?h ! env example_runner \<and>
      map_of (h' ! rv) = map_of (?h ! env example_runner) ++ map_of (?h ! 1) \<and>
      (\<forall>input color w sess sv env_a w1.
          dict_heap w = ?h \<and>
          isolation_setup example_runner input (Some 1) color w = Inr (sess, sv, env_a, w1) \<longrightarrow>
          env_a = rv \<and> dict_heap w1 = h')"
    using make_env_union [OF 1 2] unfolding m prod.case option.case .
  from c have r: "rv = 2" unfolding h by simp
  from c have a: "h' ! 0 = [(''LANG'', PyStr (ascii_text ''en''))]" unfolding h e by simp
  from c have "map_of (h' ! rv) = map_of (?h ! env example_runner) ++ map_of (?h ! 1)"
    by (elim conjE)
  then have b: "map_of (h' ! 2) = map_of [(''LANG'', PyStr (ascii_text ''en''))] ++
      map_of [(''LANG'', PyStr (ascii_text ''fr'')), (''HOME'', PyNone),
              (''NEW'', PyStr (ascii_text ''1''))]"
    unfolding h e r by simp
  from r a b show ?thesis unfolding m by simp
qed

subsection \<open>\<open>isolated_filesystem\<close>\<close>

lemma mkdtemp_dirs:
  "mkdtemp temp_dir w = Inr (t, w1) \<Longrightarrow> w1 = w\<lparr>dirs := t # dirs w\<rparr> \<and> t \<notin> set (dirs w)"
  by (auto simp: mkdtemp_def Let_def split: if_splits)

lemma rmtree_cases:
  "rmtree t w = (None, w\<lparr>dirs := filter (\<lambda>p. \<not> path_under t p) (dirs w)\<rparr>) \<or>
   rmtree t w = (Some OSError, w)"
  by (simp add: rmtree_def)

lemma isolated_filesystem_unfold:
  assumes mk: "mkdtemp temp_dir w = Inr (t, w1)"
    and body: "body t (w1\<lparr>cwd := t\<rparr>) = (r, w3)"
    and still: "cwd w \<in> set (dirs w3)"
  shows "isolated_filesystem self temp_dir body w =
           (r, if temp_dir = None then snd (rmtree t (w3\<lparr>cwd := cwd w\<rparr>))
               else w3\<lparr>cwd := cwd w\<rparr>)"
proof -
  from mkdtemp_dirs [OF mk] have t: "t \<in> set (dirs w1)" by auto
  then have c1: "chdir t w1 = Inr (w1\<lparr>cwd := t\<rparr>)" by (simp add: chdir_def)
  from still have c2: "chdir (cwd w) w3 = Inr (w3\<lparr>cwd := cwd w\<rparr>)" by (simp add: chdir_def)
  show ?thesis
    using rmtree_cases [of t "w3\<lparr>cwd := cwd w\<rparr>"]
    by (auto simp: isolated_filesystem_def mk c1 body c2 Let_def)
qed

text \<open>
  C9. Once the directory is made, and however the body ends (with \<open>r\<close>), if the
  directory the process was in still exists: the scope ends with \<open>r\<close>; the working
  directory is again what it was; with a \<open>temp_dir\<close> nothing else changes; without one
  \<open>rmtree\<close> runs after the working directory is restored, the directory and all under it
  are gone when it succeeds, and when it fails the \<open>OSError\<close> is dropped.
\<close>

theorem isolated_filesystem_exit:
  assumes mk: "mkdtemp temp_dir w = Inr (t, w1)"
    and body: "body t (w1\<lparr>cwd := t\<rparr>) = (r, w3)"
    and still: "cwd w \<in> set (dirs w3)"
  shows "fst (isolated_filesystem self temp_dir body w) = r \<and>
         cwd (snd (isolated_filesystem self temp_dir body w)) = cwd w \<and>
         (temp_dir \<noteq> None \<longrightarrow>
            snd (isolated_filesystem self temp_dir body w) = w3\<lparr>cwd := cwd w\<rparr>) \<and>
         (temp_dir = None \<longrightarrow>
            snd (isolated_filesystem self temp_dir body w) = snd (rmtree t (w3\<lparr>cwd := cwd w\<rparr>)) \<and>
            (fst (rmtree t (w3\<lparr>cwd := cwd w\<rparr>)) = None \<longrightarrow>
               dirs (snd (isolated_filesystem self temp_dir body w)) =
                 filter (\<lambda>p. \<not> path_under t p) (dirs w3)) \<and>
            (fst (rmtree t (w3\<lparr>cwd := cwd w\<rparr>)) \<noteq> None \<longrightarrow>
               snd (isolated_filesystem self temp_dir body w) = w3\<lparr>cwd := cwd w\<rparr>))"
proof -
  let ?res = "isolated_filesystem self temp_dir body w"
  let ?w4 = "w3\<lparr>cwd := cwd w\<rparr>"
  have eq: "?res = (r, if temp_dir = None then snd (rmtree t ?w4) else ?w4)"
    by (rule isolated_filesystem_unfold [where body = body, OF mk body still])
  have rm: "rmtree t ?w4 = (None, ?w4\<lparr>dirs := filter (\<lambda>p. \<not> path_under t p) (dirs ?w4)\<rparr>) \<or>
            rmtree t ?w4 = (Some OSError, ?w4)"
    by (rule rmtree_cases)
  show ?thesis
  proof (cases temp_dir)
    case None
    with eq rm show ?thesis by auto
  next
    case (Some d)
    with eq show ?thesis by simp
  qed
qed

theorem isolated_filesystem_exit_witness:
  "fst (isolated_filesystem example_runner None example_fs_body example_world) =
     Raises KeyboardInterrupt \<and>
   cwd (snd (isolated_filesystem example_runner None example_fs_body example_world)) = ''/home'' \<and>
   dirs (snd (isolated_filesystem example_runner None example_fs_body example_world)) =
     [''/home'', ''/tmp''] \<and>
   fst (isolated_filesystem example_runner None example_fs_body
          (example_world\<lparr>undeletable := [''/tmp/tmpabc'']\<rparr>)) = Raises KeyboardInterrupt \<and>
   cwd (snd (isolated_filesystem example_runner None example_fs_body
          (example_world\<lparr>undeletable := [''/tmp/tmpabc'']\<rparr>))) = ''/home''"
proof -
  let ?t = "''/tmp/tmpabc''"
  let ?w = "example_world"
  let ?w1 = "?w\<lparr>dirs := ?t # dirs ?w\<rparr>"
  let ?w3 = "?w1\<lparr>cwd := ?t, dirs := (?t @ ''/sub'') # dirs ?w1\<rparr>"
  have d: "dirs ?w = [''/home'', ''/tmp'']" and c: "cwd ?w = ''/home''"
    and n: "tmp_name ?w None = ?t" and u: "undeletable ?w = []"
    by (simp_all add: example_world_def)
  have mk: "mkdtemp None ?w = Inr (?t, ?w1)"
    by (simp add: mkdtemp_def Let_def n d)
  have body: "example_fs_body ?t (?w1\<lparr>cwd := ?t\<rparr>) = (Raises KeyboardInterrupt, ?w3)"
    by (simp add: example_fs_body_def)
  have still: "cwd ?w \<in> set (dirs ?w3)" by (simp add: c d)
  have rm: "fst (rmtree ?t (?w3\<lparr>cwd := cwd ?w\<rparr>)) = None"
    by (simp add: rmtree_def path_under_def d u)
  have f: "filter (\<lambda>p. \<not> path_under ?t p) (dirs ?w3) = [''/home'', ''/tmp'']"
    by (simp add: path_under_def d)
  note 1 = isolated_filesystem_exit [where body = example_fs_body and self = example_runner,
      OF mk body still]
  let ?v = "example_world\<lparr>undeletable := [''/tmp/tmpabc'']\<rparr>"
  let ?v1 = "?v\<lparr>dirs := ?t # dirs ?v\<rparr>"
  let ?v3 = "?v1\<lparr>cwd := ?t, dirs := (?t @ ''/sub'') # dirs ?v1\<rparr>"
  have mk': "mkdtemp None ?v = Inr (?t, ?v1)"
    by (simp add: mkdtemp_def Let_def n d)
  have body': "example_fs_body ?t (?v1\<lparr>cwd := ?t\<rparr>) = (Raises KeyboardInterrupt, ?v3)"
    by (simp add: example_fs_body_def)
  have still': "cwd ?v \<in> set (dirs ?v3)" by (simp add: c d)
  note 2 = isolated_filesystem_exit [where body = example_fs_body and self = example_runner,
      OF mk' body' still']
  from 1 have a: "fst (isolated_filesystem example_runner None example_fs_body ?w) =
      Raises KeyboardInterrupt"
    and b: "cwd (snd (isolated_filesystem example_runner None example_fs_body ?w)) = cwd ?w"
    and e: "fst (rmtree ?t (?w3\<lparr>cwd := cwd ?w\<rparr>)) = None \<longrightarrow>
            dirs (snd (isolated_filesystem example_runner None example_fs_body ?w)) =
              filter (\<lambda>p. \<not> path_under ?t p) (dirs ?w3)"
    by blast+
  from 2 have a': "fst (isolated_filesystem example_runner None example_fs_body ?v) =
      Raises KeyboardInterrupt"
    and b': "cwd (snd (isolated_filesystem example_runner None example_fs_body ?v)) = cwd ?v"
    by blast+
  have cv: "cwd ?v = ''/home''" by (simp add: c)
  from e rm f have g: "dirs (snd (isolated_filesystem example_runner None example_fs_body ?w)) =
      [''/home'', ''/tmp'']" by simp
  show ?thesis
    using a b [unfolded c] g a' b' [unfolded cv] by (intro conjI)
qed

text \<open>
  Without that condition the property fails. \<open>os.chdir(cwd)\<close> is the first statement of
  the \<open>finally\<close> block and is not guarded: when the body, which returns normally here,
  has removed the directory the process was in (\<open>/home\<close>), the scope raises \<open>OSError\<close> in
  place of the body's outcome, the working directory stays the temporary directory, and
  the temporary directory is not removed although no \<open>temp_dir\<close> was given.
\<close>

theorem isolated_filesystem_cwd_removed_counterexample:
  "isolated_filesystem example_runner None example_rmdir_body example_world =
     (Raises OSError,
      example_world\<lparr>cwd := ''/tmp/tmpabc'', dirs := [''/tmp/tmpabc'', ''/tmp'']\<rparr>)"
  by (simp add: isolated_filesystem_def mkdtemp_def chdir_def example_rmdir_body_def
      example_world_def Let_def)

subsection \<open>\<open>isolation\<close> and the environment\<close>

lemma delitem_quiet:
  "(case environ_delitem key E of Inl e \<Rightarrow> E | Inr E1 \<Rightarrow> E1) = E(key := None)"
  by (auto simp: environ_delitem_def)

lemma restore_environ_total: "fst (restore_environ old_env E) = None"
  by (induction old_env arbitrary: E)
     (auto simp: environ_setitem_def delitem_quiet split: option.splits)

lemma restore_environ_lookup:
  "distinct (map fst old_env) \<Longrightarrow>
   snd (restore_environ old_env E) k = (case map_of old_env k of None \<Rightarrow> E k | Some v \<Rightarrow> v)"
proof (induction old_env arbitrary: E)
  case Nil
  then show ?case by simp
next
  case (Cons kv old_env)
  obtain key v where kv: "kv = (key, v)" by (cases kv)
  from Cons.prems kv have nk: "map_of old_env key = None" and d: "distinct (map fst old_env)"
    by (auto simp: map_of_eq_None_iff)
  have step: "restore_environ (kv # old_env) E = restore_environ old_env (E(key := v))"
    unfolding kv by (cases v) (simp_all add: environ_setitem_def delitem_quiet)
  show ?case
    unfolding step Cons.IH [OF d] using nk kv by (auto split: option.splits)
qed

lemma override_environ_inv:
  "override_environ items old_env E = (raised, old_env', E') \<Longrightarrow>
   distinct (map fst items) \<Longrightarrow>
   fst ` set old_env \<inter> fst ` set items = {} \<Longrightarrow>
   distinct (map fst old_env) \<Longrightarrow>
   distinct (map fst old_env') \<and>
   fst ` set old_env \<subseteq> fst ` set old_env' \<and>
   (\<forall>k. k \<notin> fst ` set old_env' \<longrightarrow> E' k = E k) \<and>
   (\<forall>k v. map_of old_env' k = Some v \<longrightarrow>
      map_of old_env k = Some v \<or> (k \<notin> fst ` set old_env \<and> v = E k)) \<and>
   (raised = None \<longrightarrow> fst ` set old_env' = fst ` set old_env \<union> fst ` set items)"
proof (induction items arbitrary: old_env E)
  case Nil
  then show ?case by auto
next
  case (Cons kv items)
  obtain key v where kv: "kv = (key, v)" by (cases kv)
  let ?old1 = "AList.update key (E key) old_env"
  from Cons.prems kv have knew: "key \<notin> fst ` set old_env" and kitems: "key \<notin> fst ` set items"
    and ditems: "distinct (map fst items)"
    by auto
  have keys1: "fst ` set ?old1 = insert key (fst ` set old_env)"
    using dom_update [of key "E key" old_env] by (simp add: dom_map_of_conv_image_fst)
  have d1: "distinct (map fst ?old1)" using Cons.prems(4) by (rule distinct_update)
  have m1: "map_of ?old1 = (map_of old_env)(key \<mapsto> E key)" by (rule update_conv')
  have disj1: "fst ` set ?old1 \<inter> fst ` set items = {}"
    using Cons.prems(3) kitems kv unfolding keys1 by auto
  have step: "?case"
    if ov: "override_environ items ?old1 E1 = (raised, old_env', E')"
      and same: "\<forall>k. k \<noteq> key \<longrightarrow> E1 k = E k" for E1
  proof -
    from Cons.IH [OF ov ditems disj1 d1]
    have i1: "distinct (map fst old_env')"
      and i2: "fst ` set ?old1 \<subseteq> fst ` set old_env'"
      and i3: "\<forall>k. k \<notin> fst ` set old_env' \<longrightarrow> E' k = E1 k"
      and i4: "\<forall>k x. map_of old_env' k = Some x \<longrightarrow>
                 map_of ?old1 k = Some x \<or> (k \<notin> fst ` set ?old1 \<and> x = E1 k)"
      and i5: "raised = None \<longrightarrow> fst ` set old_env' = fst ` set ?old1 \<union> fst ` set items"
      by blast+
    have c2: "fst ` set old_env \<subseteq> fst ` set old_env'" using i2 keys1 by auto
    have kin: "key \<in> fst ` set old_env'" using i2 keys1 by auto
    have c3: "\<forall>k. k \<notin> fst ` set old_env' \<longrightarrow> E' k = E k"
      using i3 same kin by metis
    have c4: "\<forall>k x. map_of old_env' k = Some x \<longrightarrow>
                 map_of old_env k = Some x \<or> (k \<notin> fst ` set old_env \<and> x = E k)"
    proof (intro allI impI)
      fix k x assume "map_of old_env' k = Some x"
      with i4 have "map_of ?old1 k = Some x \<or> (k \<notin> fst ` set ?old1 \<and> x = E1 k)" by blast
      then show "map_of old_env k = Some x \<or> (k \<notin> fst ` set old_env \<and> x = E k)"
        using knew same unfolding m1 keys1 by (cases "k = key") auto
    qed
    have c5: "raised = None \<longrightarrow>
        fst ` set old_env' = fst ` set old_env \<union> fst ` set (kv # items)"
      using i5 keys1 kv by auto
    from i1 c2 c3 c4 c5 show ?thesis by blast
  qed
  show ?case
  proof (cases "v = PyNone")
    case True
    with Cons.prems(1) kv
    have "override_environ items ?old1 (E(key := None)) = (raised, old_env', E')"
      by (simp add: delitem_quiet Let_def)
    then show ?thesis by (rule step) simp
  next
    case False
    show ?thesis
    proof (cases "environ_setitem key v E")
      case (Inl e)
      with False Cons.prems(1) kv
      have "raised = Some e \<and> old_env' = ?old1 \<and> E' = E" by (auto simp: Let_def)
      then have r: "raised = Some e" "old_env' = ?old1" "E' = E" by simp_all
      show ?thesis
        unfolding r using d1 keys1 m1 knew by (auto split: if_splits)
    next
      case (Inr E1)
      with False Cons.prems(1) kv
      have ov: "override_environ items ?old1 E1 = (raised, old_env', E')"
        by (simp add: Let_def)
      from Inr have "\<forall>k. k \<noteq> key \<longrightarrow> E1 k = E k"
        by (auto simp: environ_setitem_def split: py_value.splits)
      with ov show ?thesis by (rule step)
    qed
  qed
qed

lemma isolation_finally_environ:
  "os_environ (snd (isolation_finally sv old_env r w)) = snd (restore_environ old_env (os_environ w))"
  by (simp add: isolation_finally_def split: prod.splits option.splits)

lemma isolation_finally_outcome: "fst (isolation_finally sv old_env r w) = r"
  using restore_environ_total [of old_env "os_environ w"]
  by (auto simp: isolation_finally_def split: prod.splits option.splits)

lemma isolation_setup_raises_environ:
  "isolation_setup self input env_arg color w = Inl (e, w1) \<Longrightarrow> os_environ w1 = os_environ w"
  by (auto simp: isolation_setup_def Let_def split: sum.splits prod.splits option.splits)

lemma make_env_result:
  assumes "make_env self overrides h = (rv, h')"
    and "env self < length h"
    and "\<forall>a. overrides = Some a \<longrightarrow> a < length h"
  shows "h' ! rv = fold (\<lambda>(k, v). AList.update k v)
                     (case overrides of None \<Rightarrow> [] | Some a \<Rightarrow> h ! a) (h ! env self)"
  using assms
  by (auto simp: make_env_def new_dict_def dict_update_def nth_append
      split: option.splits if_splits)

lemma make_env_keys:
  assumes "make_env self overrides h = (rv, h')"
    and "env self < length h"
    and "\<forall>a. overrides = Some a \<longrightarrow> a < length h"
  shows "fst ` set (h' ! rv) =
           fst ` set (h ! env self) \<union>
           (case overrides of None \<Rightarrow> {} | Some a \<Rightarrow> fst ` set (h ! a))"
    and "distinct (map fst (h ! env self)) \<Longrightarrow> distinct (map fst (h' ! rv))"
proof -
  show "fst ` set (h' ! rv) =
           fst ` set (h ! env self) \<union>
           (case overrides of None \<Rightarrow> {} | Some a \<Rightarrow> fst ` set (h ! a))"
    unfolding make_env_result [OF assms] keys_fold_update by (cases overrides) simp_all
  show "distinct (map fst (h ! env self)) \<Longrightarrow> distinct (map fst (h' ! rv))"
    unfolding make_env_result [OF assms] by (rule distinct_fold_update)
qed

lemma isolation_finally_environ':
  "isolation_finally sv old_env r w = (x, w2) \<Longrightarrow>
   os_environ w2 = snd (restore_environ old_env (os_environ w))"
  using isolation_finally_environ [of sv old_env r w] by simp

lemma isolation_environ_cases:
  fixes input :: input_payload and color :: bool
    and body :: "session \<Rightarrow> world \<Rightarrow> 'a outcome \<times> session \<times> world"
  assumes h1: "env self < length (dict_heap w)"
    and h2: "distinct (map fst (dict_heap w ! env self))"
    and h3: "\<forall>a. env_arg = Some a \<longrightarrow> a < length (dict_heap w)"
  defines "K \<equiv> fst ` set (dict_heap w ! env self) \<union>
                (case env_arg of None \<Rightarrow> {} | Some a \<Rightarrow> fst ` set (dict_heap w ! a))"
  defines "final \<equiv> os_environ (snd (isolation self input env_arg color body w))"
  shows "final k = os_environ w k \<or>
         (k \<notin> K \<and> (\<exists>s w1. os_environ w1 k = os_environ w k \<and>
                          final k = os_environ (snd (snd (body s w1))) k))"
proof (cases "isolation_setup self input env_arg color w")
  case (Inl a)
  obtain e w1 where a: "a = (e, w1)" by (cases a)
  with Inl have "final = os_environ w1"
    by (simp add: final_def isolation_def isolation_enter_def)
  with isolation_setup_raises_environ [of self input env_arg color w e w1] Inl a
  show ?thesis by simp
next
  case (Inr b)
  obtain sess sv env_a w1 where b: "b = (sess, sv, env_a, w1)" by (cases b)
  with Inr have su: "isolation_setup self input env_arg color w = Inr (sess, sv, env_a, w1)"
    by simp
  note me = isolation_setup_make_env(1) [OF su] and ew = isolation_setup_make_env(2) [OF su]
  let ?items = "dict_heap w1 ! env_a"
  have keys: "fst ` set ?items = K"
    unfolding K_def by (rule make_env_keys(1) [OF me h1 h3])
  have ditems: "distinct (map fst ?items)"
    by (rule make_env_keys(2) [OF me h1 h3 h2])
  obtain raised old_env' E' where
    ov: "override_environ ?items [] (os_environ w1) = (raised, old_env', E')"
    by (cases "override_environ ?items [] (os_environ w1)")
  from override_environ_inv [OF ov ditems]
  have d: "distinct (map fst old_env')"
    and un: "\<forall>k. k \<notin> fst ` set old_env' \<longrightarrow> E' k = os_environ w k"
    and sn: "\<forall>k v. map_of old_env' k = Some v \<longrightarrow> v = os_environ w k"
    and al: "raised = None \<longrightarrow> fst ` set old_env' = K"
    unfolding ew keys by auto
  have look: "snd (restore_environ old_env' E2) k =
      (case map_of old_env' k of None \<Rightarrow> E2 k | Some v \<Rightarrow> v)" for E2
    by (rule restore_environ_lookup [OF d])
  show ?thesis
  proof (cases raised)
    case (Some e)
    with su ov have "final = snd (restore_environ old_env' E')"
      by (auto simp: final_def isolation_def isolation_enter_def
          dest: isolation_finally_environ' split: prod.splits outcome.splits)
    then have "final k = os_environ w k"
      using look [of E'] un sn by (auto simp: map_of_eq_None_iff split: option.splits)
    then show ?thesis by simp
  next
    case None
    let ?w2 = "w1\<lparr>os_environ := E'\<rparr>"
    from None su ov
    have f: "final = snd (restore_environ old_env' (os_environ (snd (snd (body sess ?w2)))))"
      by (auto simp: final_def isolation_def isolation_enter_def isolation_finally_environ
          split: prod.splits)
    show ?thesis
    proof (cases "map_of old_env' k")
      case (Some v)
      with f look sn show ?thesis by simp
    next
      case N: None
      then have nk: "k \<notin> fst ` set old_env'" by (simp add: map_of_eq_None_iff)
      with al None have "k \<notin> K" by simp
      moreover from un nk have "os_environ ?w2 k = os_environ w k" by simp
      moreover from f look N have "final k = os_environ (snd (snd (body sess ?w2))) k" by simp
      ultimately show ?thesis by blast
    qed
  qed
qed

text \<open>
  C2. Let \<open>K\<close> be the keys of the mapping that \<open>isolation\<close> applies (those of the runner's
  \<open>env\<close> and of the overrides). However the session ends (the input stream or the
  character set is refused, an override is refused half way, the body returns or raises
  anything), every variable of \<open>K\<close> has afterwards the value, or the absence, it had
  before; and when the body itself leaves the variables outside \<open>K\<close> as it found them,
  the environment afterwards is the environment before.
\<close>

theorem isolation_restores_environ:
  fixes input :: input_payload and color :: bool
    and body :: "session \<Rightarrow> world \<Rightarrow> 'a outcome \<times> session \<times> world"
  assumes h1: "env self < length (dict_heap w)"
    and h2: "distinct (map fst (dict_heap w ! env self))"
    and h3: "\<forall>a. env_arg = Some a \<longrightarrow> a < length (dict_heap w)"
  defines "K \<equiv> fst ` set (dict_heap w ! env self) \<union>
                (case env_arg of None \<Rightarrow> {} | Some a \<Rightarrow> fst ` set (dict_heap w ! a))"
  defines "final \<equiv> os_environ (snd (isolation self input env_arg color body w))"
  shows "(\<forall>k \<in> K. final k = os_environ w k) \<and>
         ((\<forall>s w1 k. k \<notin> K \<longrightarrow> os_environ (snd (snd (body s w1))) k = os_environ w1 k) \<longrightarrow>
          final = os_environ w)"
proof (intro conjI ballI impI)
  note cases = isolation_environ_cases [OF h1 h2 h3, of input color body, folded K_def final_def]
  fix k assume "k \<in> K"
  with cases [of k] show "final k = os_environ w k" by blast
next
  note cases = isolation_environ_cases [OF h1 h2 h3, of input color body, folded K_def final_def]
  assume frame: "\<forall>s w1 k. k \<notin> K \<longrightarrow> os_environ (snd (snd (body s w1))) k = os_environ w1 k"
  show "final = os_environ w"
  proof
    fix k
    from cases [of k] frame show "final k = os_environ w k" by metis
  qed
qed

theorem isolation_restores_environ_witness:
  "os_environ (snd (isolation example_runner InputNone (Some 1) False example_env_body
                      example_world)) = os_environ example_world"
proof -
  have h: "dict_heap example_world =
             [[(''LANG'', PyStr (ascii_text ''en''))],
              [(''LANG'', PyStr (ascii_text ''fr'')), (''HOME'', PyNone),
               (''NEW'', PyStr (ascii_text ''1''))]]"
    by (simp add: example_world_def)
  have e: "env example_runner = 0" by (simp add: example_runner_def)
  have h1: "env example_runner < length (dict_heap example_world)" unfolding h e by simp
  have h2: "distinct (map fst (dict_heap example_world ! env example_runner))"
    unfolding h e by simp
  have h3: "\<forall>a. Some (1::nat) = Some a \<longrightarrow> a < length (dict_heap example_world)"
    unfolding h by simp
  have frame: "\<forall>s w1 k.
      k \<notin> fst ` set (dict_heap example_world ! env example_runner) \<union>
           (case Some (1::nat) of None \<Rightarrow> {}
            | Some a \<Rightarrow> fst ` set (dict_heap example_world ! a)) \<longrightarrow>
      os_environ (snd (snd (example_env_body s w1))) k = os_environ w1 k"
    unfolding h e by (simp add: example_env_body_def)
  from isolation_restores_environ [OF h1 h2 h3, of InputNone False example_env_body] frame
  show ?thesis by blast
qed

subsection \<open>The visible-input hook\<close>

lemma py_rstrip_split:
  "\<exists>rest. s = py_rstrip s chars @ rest \<and> set rest \<subseteq> set chars"
proof -
  let ?P = "\<lambda>c. c \<in> set chars"
  have "rev s = takeWhile ?P (rev s) @ dropWhile ?P (rev s)" by simp
  then have "s = rev (dropWhile ?P (rev s)) @ rev (takeWhile ?P (rev s))"
    by (metis rev_append rev_rev_ident)
  moreover have "set (rev (takeWhile ?P (rev s))) \<subseteq> set chars"
    by (auto dest: set_takeWhileD)
  ultimately show ?thesis unfolding py_rstrip_def by blast
qed

lemma py_rstrip_last:
  "py_rstrip s chars = [] \<or> last (py_rstrip s chars) \<notin> set chars"
proof (cases "dropWhile (\<lambda>c. c \<in> set chars) (rev s)")
  case Nil
  then show ?thesis by (simp add: py_rstrip_def)
next
  case (Cons a as)
  then have "\<not> a \<in> set chars" using hd_dropWhile [of "\<lambda>c. c \<in> set chars" "rev s"] by auto
  with Cons show ?thesis by (simp add: py_rstrip_def)
qed

text \<open>
  C7. When the prompt (nothing when there is none) and the value can be encoded and
  \<open>input.readline()\<close> returns \<open>line\<close>: \<open>visible_input\<close> returns \<open>line\<close> without its trailing
  \<open>\r\<close> and \<open>\n\<close> characters; the output buffer gains what was pending, then the prompt,
  then the value and a newline; nothing is left pending (the flush); and one line of the
  input is consumed.
\<close>

theorem visible_input_behaviour:
  fixes s :: session and prompt :: "str option"
  defines "wr \<equiv> stdout_wrapper s"
  defines "ptext \<equiv> (case prompt of None \<Rightarrow> [] | Some p \<Rightarrow> p)"
  assumes p: "encode (w_codec wr) (w_errors wr) (py_replace ptext [LF] (w_newline wr)) = Inr bp"
    and r: "text_readline (input_wrapper s) = (Inr line, rd)"
    and v: "encode (w_codec wr) (w_errors wr)
              (py_replace (py_rstrip line [CR, LF] @ [LF]) [LF] (w_newline wr)) = Inr bv"
  shows "visible_input prompt s =
           (Returns (py_rstrip line [CR, LF]),
            s\<lparr>input_wrapper := rd,
              bytes_output := bytes_output s @ w_pending wr @ bp @ bv,
              stdout_wrapper := wr\<lparr>w_pending := []\<rparr>\<rparr>) \<and>
         (\<exists>rest. line = py_rstrip line [CR, LF] @ rest \<and> set rest \<subseteq> {CR, LF}) \<and>
         (py_rstrip line [CR, LF] = [] \<or> last (py_rstrip line [CR, LF]) \<notin> {CR, LF})"
proof -
  have 1: "visible_input prompt s =
           (Returns (py_rstrip line [CR, LF]),
            s\<lparr>input_wrapper := rd,
              bytes_output := bytes_output s @ w_pending wr @ bp @ bv,
              stdout_wrapper := wr\<lparr>w_pending := []\<rparr>\<rparr>)"
    using p r v
    by (simp add: visible_input_def stdout_write_def text_write_def stdin_readline_def
        stdout_flush_def wr_def ptext_def Let_def)
  from py_rstrip_split [of line "[CR, LF]"] py_rstrip_last [of line "[CR, LF]"] 1
  show ?thesis by simp
qed


text \<open>The example session is the one \<open>isolation\<close> creates for the example runner.\<close>

lemma example_session_is_setup:
  "\<exists>sv a w1. isolation_setup example_runner (InputBytes inp) None False example_world =
             Inr (example_session inp, sv, a, w1)"
  by (simp add: isolation_setup_def make_input_stream_def example_runner_def lookup_codec_def
      example_session_def example_world_def make_env_def new_dict_def Let_def)

theorem visible_input_behaviour_witness:
  "fst (visible_input (Some (ascii_text ''Name: '')) (example_session (''Ada'' @ [CHR 0x0A]))) =
     Returns (ascii_text ''Ada'') \<and>
   bytes_output
     (snd (visible_input (Some (ascii_text ''Name: '')) (example_session (''Ada'' @ [CHR 0x0A])))) =
     ''Name: Ada'' @ [CHR 0x0A]"
proof -
  let ?s = "example_session (''Ada'' @ [CHR 0x0A])"
  let ?line = "ascii_text ''Ada'' @ [LF]"
  have c: "w_codec (stdout_wrapper (example_session inp)) = utf8_codec"
    "w_errors (stdout_wrapper (example_session inp)) = Strict"
    "w_newline (stdout_wrapper (example_session inp)) = [LF]"
    "w_pending (stdout_wrapper (example_session inp)) = []"
    "bytes_output (example_session inp) = []" for inp
    by (simp_all add: example_session_def)
  have st: "py_rstrip ?line [CR, LF] = ascii_text ''Ada''" by code_simp
  have p: "encode (w_codec (stdout_wrapper ?s)) (w_errors (stdout_wrapper ?s))
             (py_replace (case Some (ascii_text ''Name: '') of None \<Rightarrow> [] | Some p \<Rightarrow> p) [LF]
                (w_newline (stdout_wrapper ?s))) = Inr ''Name: ''"
    unfolding c by code_simp
  have rl: "fst (text_readline (input_wrapper ?s)) = Inr ?line" by code_simp
  obtain rd where r: "text_readline (input_wrapper ?s) = (Inr ?line, rd)"
    using rl by (cases "text_readline (input_wrapper ?s)") auto
  have v: "encode (w_codec (stdout_wrapper ?s)) (w_errors (stdout_wrapper ?s))
             (py_replace (py_rstrip ?line [CR, LF] @ [LF]) [LF]
                (w_newline (stdout_wrapper ?s))) = Inr (''Ada'' @ [CHR 0x0A])"
    unfolding c by code_simp
  from visible_input_behaviour [OF p r v]
  show ?thesis by (simp add: st c)
qed

subsection \<open>\<open>invoke\<close>\<close>

text \<open>
  Once the session is entered and the arguments are split, the outcome of \<open>invoke\<close> is
  that of the \<open>try\<close> statement around \<open>main\<close>, with the output flushed.
\<close>

lemma invoke_after_main:
  assumes enter: "isolation_enter self input env_arg color w = Inr (sess, sv, old_env, w1)"
    and args: "split_args shlex_split a = Inr argv"
    and main: "main c argv (fst (pop_prog_name c extra)) (snd (pop_prog_name c extra)) sess w1 =
                 (r, s1, w2)"
  shows "fst (invoke shlex_split self c a input env_arg catch_exceptions color extra w) =
         (case invoke_try r catch_exceptions s1 of
            (Raises e, s2) \<Rightarrow> Raises e
          | (Returns (rv, ec, ex, ei), s2) \<Rightarrow>
              Returns \<lparr> runner = self,
                        stdout_bytes = bytes_output s2 @ w_pending (stdout_wrapper s2),
                        stderr_bytes = (if mix_stderr self then None else bytes_error s2),
                        return_value = rv, exit_code = ec, exception = ex, exc_info = ei \<rparr>)"
proof -
  obtain t s2 where t: "invoke_try r catch_exceptions s1 = (t, s2)"
    by (cases "invoke_try r catch_exceptions s1")
  have w: "invoke_with shlex_split self c a catch_exceptions extra sess w1 =
      (case t of
         Raises e \<Rightarrow> (Raises e, stdout_flush s2, w2)
       | Returns (rv, ec, ex, ei) \<Rightarrow>
           (Returns (bytes_output (stdout_flush s2),
                     (if mix_stderr self then None else bytes_error (stdout_flush s2)),
                     rv, ec, ex, ei), stdout_flush s2, w2))"
    using args main t
    by (cases t) (simp_all add: invoke_with_def Let_def case_prod_beta)
  have fl: "bytes_output (stdout_flush s2) = bytes_output s2 @ w_pending (stdout_wrapper s2)"
    "bytes_error (stdout_flush s2) = bytes_error s2"
    by (simp_all add: stdout_flush_def)
  let ?body = "invoke_with shlex_split self c a catch_exceptions extra"
  define X where "X = fst (?body sess w1)"
  have body: "?body sess w1 = (X, stdout_flush s2, w2)"
    unfolding X_def w by (cases t) (auto split: prod.splits)
  have iso: "isolation self input env_arg color ?body w =
             (X, snd (isolation_finally sv old_env X w2))"
    unfolding isolation_def enter
    using isolation_finally_outcome [of sv old_env X w2] by (simp add: body prod_eq_iff)
  show ?thesis
  proof (cases t)
    case (Raises e)
    with w have "X = Raises e" by (simp add: X_def)
    with Raises t show ?thesis by (simp add: invoke_def iso)
  next
    case (Returns x)
    obtain rv ec ex ei where x: "x = (rv, ec, ex, ei)" by (cases x)
    with Returns w have "X = Returns (bytes_output (stdout_flush s2),
                     (if mix_stderr self then None else bytes_error (stdout_flush s2)),
                     rv, ec, ex, ei)" by (simp add: X_def)
    with Returns x t fl show ?thesis by (simp add: invoke_def iso)
  qed
qed

lemma invoke_try_simps:
  "invoke_try (Returns v) ce s = (Returns (v, PyInt 0, None, None), s)"
  "invoke_try (Raises (SystemExit PyNone)) ce s =
     (Returns (PyNone, PyInt 0, None, Some (SystemExit PyNone)), s)"
  "isinstance_int p \<Longrightarrow>
   invoke_try (Raises (SystemExit p)) ce s =
     (Returns (PyNone, p, if ne_zero p then Some (SystemExit p) else None, Some (SystemExit p)), s)"
  "isinstance_Exception e \<Longrightarrow>
   invoke_try (Raises e) ce s =
     (if ce then (Returns (PyNone, PyInt 1, Some e, Some e), s) else (Raises e, s))"
  "\<not> isinstance_Exception e \<Longrightarrow> \<not> isinstance_SystemExit e \<Longrightarrow>
   invoke_try (Raises e) ce s = (Raises e, s)"
  by (cases p; cases e; simp add: invoke_try_def Let_def)+

lemma invoke_try_message:
  assumes "\<not> isinstance_int p" and "p \<noteq> PyNone"
    and "encode (w_codec (stdout_wrapper s)) (w_errors (stdout_wrapper s))
           (py_replace (py_str p) [LF] (w_newline (stdout_wrapper s))) = Inr b1"
    and "encode (w_codec (stdout_wrapper s)) (w_errors (stdout_wrapper s))
           (py_replace [LF] [LF] (w_newline (stdout_wrapper s))) = Inr b2"
  shows "invoke_try (Raises (SystemExit p)) ce s =
           (Returns (PyNone, PyInt 1, if ne_zero p then Some (SystemExit p) else None,
                     Some (SystemExit p)),
            s\<lparr>stdout_wrapper :=
                (stdout_wrapper s)\<lparr>w_pending := w_pending (stdout_wrapper s) @ b1 @ b2\<rparr>\<rparr>)"
  using assms
  by (simp add: invoke_try_def Let_def stdout_write_def text_write_def)

text \<open>The session that \<open>isolation\<close> hands to the body writes to an empty output.\<close>

lemma isolation_enter_session:
  assumes "isolation_enter self input env_arg color w = Inr (sess, sv, old_env, w1)"
  shows "lookup_codec (charset self) = Some (w_codec (stdout_wrapper sess))"
    and "w_errors (stdout_wrapper sess) = Strict"
    and "w_newline (stdout_wrapper sess) = os_linesep w"
    and "w_pending (stdout_wrapper sess) = []"
    and "bytes_output sess = []"
proof -
  from assms obtain env_a w0 where
    su: "isolation_setup self input env_arg color w = Inr (sess, sv, env_a, w0)"
    by (auto simp: isolation_enter_def split: sum.splits prod.splits option.splits outcome.splits)
  from su show "lookup_codec (charset self) = Some (w_codec (stdout_wrapper sess))"
    and "w_errors (stdout_wrapper sess) = Strict"
    and "w_newline (stdout_wrapper sess) = os_linesep w"
    and "w_pending (stdout_wrapper sess) = []"
    and "bytes_output sess = []"
    by (auto simp: isolation_setup_def Let_def split: sum.splits prod.splits option.splits)
qed

lemma example_enter:
  "\<exists>sess sv old_env w1.
     isolation_enter example_runner InputNone None False example_world =
       Inr (sess, sv, old_env, w1)"
proof -
  have "\<not> isl (isolation_enter example_runner InputNone None False example_world)"
    by code_simp
  then show ?thesis
    by (cases "isolation_enter example_runner InputNone None False example_world") auto
qed

text \<open>
  C1. In an invocation that reaches the entry point (the session is entered, the
  arguments are split): when the entry point returns \<open>v\<close>, the result has the return
  value \<open>v\<close>, the exit code 0 and no exception. When it raises \<open>SystemExit\<close> with the
  payload \<open>p\<close>: an \<open>int\<close> is the exit code, the exception is recorded exactly when that
  code is not 0, and nothing is written; \<open>None\<close> gives the exit code 0 and no exception;
  any other payload whose \<open>str\<close> the session's character set can encode gives the exit
  code 1, \<open>str(p)\<close> and a newline at the end of the captured output, and the exception
  is recorded when \<open>p != 0\<close>.
\<close>

theorem invoke_exit_codes:
  fixes input :: input_payload and color :: bool and catch_exceptions :: bool
  assumes enter: "isolation_enter self input env_arg color w = Inr (sess, sv, old_env, w1)"
    and args: "split_args shlex_split a = Inr argv"
    and main: "main c argv (fst (pop_prog_name c extra)) (snd (pop_prog_name c extra)) sess w1 =
                 (r, s1, w2)"
  defines "res \<equiv> fst (invoke shlex_split self c a input env_arg catch_exceptions color extra w)"
  defines "wr \<equiv> stdout_wrapper s1"
  shows "(\<forall>v. r = Returns v \<longrightarrow>
            (\<exists>x. res = Returns x \<and> return_value x = v \<and> exit_code x = PyInt 0 \<and>
                 exception x = None)) \<and>
         (\<forall>p. r = Raises (SystemExit p) \<and> isinstance_int p \<longrightarrow>
            (\<exists>x. res = Returns x \<and> exit_code x = p \<and>
                 exception x = (if ne_zero (exit_code x) then Some (SystemExit p) else None) \<and>
                 stdout_bytes x = bytes_output s1 @ w_pending wr)) \<and>
         (r = Raises (SystemExit PyNone) \<longrightarrow>
            (\<exists>x. res = Returns x \<and> exit_code x = PyInt 0 \<and> exception x = None \<and>
                 stdout_bytes x = bytes_output s1 @ w_pending wr)) \<and>
         (\<forall>p b1 b2.
            r = Raises (SystemExit p) \<and> \<not> isinstance_int p \<and> p \<noteq> PyNone \<and>
            encode (w_codec wr) (w_errors wr) (py_replace (py_str p) [LF] (w_newline wr)) = Inr b1 \<and>
            encode (w_codec wr) (w_errors wr) (py_replace [LF] [LF] (w_newline wr)) = Inr b2 \<longrightarrow>
            (\<exists>x. res = Returns x \<and> exit_code x = PyInt 1 \<and>
                 stdout_bytes x = bytes_output s1 @ w_pending wr @ b1 @ b2 \<and>
                 (ne_zero p \<longrightarrow> exception x = Some (SystemExit p))))"
proof -
  note eq = invoke_after_main [OF enter args main, of catch_exceptions, folded res_def]
  have 1: "\<forall>v. r = Returns v \<longrightarrow>
            (\<exists>x. res = Returns x \<and> return_value x = v \<and> exit_code x = PyInt 0 \<and>
                 exception x = None)"
    by (simp add: eq invoke_try_simps)
  have 2: "\<forall>p. r = Raises (SystemExit p) \<and> isinstance_int p \<longrightarrow>
            (\<exists>x. res = Returns x \<and> exit_code x = p \<and>
                 exception x = (if ne_zero (exit_code x) then Some (SystemExit p) else None) \<and>
                 stdout_bytes x = bytes_output s1 @ w_pending wr)"
    by (simp add: eq invoke_try_simps wr_def)
  have 3: "r = Raises (SystemExit PyNone) \<longrightarrow>
            (\<exists>x. res = Returns x \<and> exit_code x = PyInt 0 \<and> exception x = None \<and>
                 stdout_bytes x = bytes_output s1 @ w_pending wr)"
    by (simp add: eq invoke_try_simps wr_def)
  have 4: "\<forall>p b1 b2.
            r = Raises (SystemExit p) \<and> \<not> isinstance_int p \<and> p \<noteq> PyNone \<and>
            encode (w_codec wr) (w_errors wr) (py_replace (py_str p) [LF] (w_newline wr)) = Inr b1 \<and>
            encode (w_codec wr) (w_errors wr) (py_replace [LF] [LF] (w_newline wr)) = Inr b2 \<longrightarrow>
            (\<exists>x. res = Returns x \<and> exit_code x = PyInt 1 \<and>
                 stdout_bytes x = bytes_output s1 @ w_pending wr @ b1 @ b2 \<and>
                 (ne_zero p \<longrightarrow> exception x = Some (SystemExit p)))"
    unfolding wr_def by (auto simp: eq invoke_try_message)
  from 1 2 3 4 show ?thesis by blast
qed

theorem invoke_exit_codes_witness:
  "(\<exists>x. fst (invoke example_split example_runner (example_cli (Returns (PyInt 7)))
              ArgsNone InputNone None True False [] example_world) = Returns x \<and>
        return_value x = PyInt 7 \<and> exit_code x = PyInt 0 \<and> exception x = None) \<and>
   (\<exists>x. fst (invoke example_split example_runner (example_cli (Raises (SystemExit (PyInt 2))))
              ArgsNone InputNone None True False [] example_world) = Returns x \<and>
        exit_code x = PyInt 2 \<and> exception x = Some (SystemExit (PyInt 2))) \<and>
   (\<exists>x. fst (invoke example_split example_runner
              (example_cli (Raises (SystemExit (PyStr (ascii_text ''boom'')))))
              ArgsNone InputNone None True False [] example_world) = Returns x \<and>
        exit_code x = PyInt 1 \<and> stdout_bytes x = ''boom'' @ [CHR 0x0A] \<and>
        exception x = Some (SystemExit (PyStr (ascii_text ''boom''))))"
proof -
  from example_enter obtain sess sv old_env w1 where
    enter: "isolation_enter example_runner InputNone None False example_world =
              Inr (sess, sv, old_env, w1)" by blast
  have args: "split_args example_split ArgsNone = Inr []" by (simp add: split_args_def)
  have main: "main (example_cli r) [] (fst (pop_prog_name (example_cli r) []))
                (snd (pop_prog_name (example_cli r) [])) sess w1 = (r, sess, w1)" for r
    by (simp add: example_cli_def)
  have "lookup_codec (charset example_runner) = Some utf8_codec"
    by (simp add: example_runner_def lookup_codec_def)
  with isolation_enter_session [OF enter]
  have wr: "w_codec (stdout_wrapper sess) = utf8_codec" "w_errors (stdout_wrapper sess) = Strict"
    "w_newline (stdout_wrapper sess) = [LF]" "w_pending (stdout_wrapper sess) = []"
    "bytes_output sess = []"
    by (simp_all add: example_world_def)
  have e1: "encode utf8_codec Strict (py_replace (py_str (PyStr (ascii_text ''boom''))) [LF] [LF]) =
              Inr ''boom''" by code_simp
  have e2: "encode utf8_codec Strict (py_replace [LF] [LF] [LF]) = Inr [CHR 0x0A]" by code_simp
  note t = invoke_exit_codes [OF enter args main, of _ True, unfolded wr]
  from t [of "Returns (PyInt 7)"]
  have 1: "\<exists>x. fst (invoke example_split example_runner (example_cli (Returns (PyInt 7)))
              ArgsNone InputNone None True False [] example_world) = Returns x \<and>
        return_value x = PyInt 7 \<and> exit_code x = PyInt 0 \<and> exception x = None"
    by blast
  from t [of "Raises (SystemExit (PyInt 2))"]
  have 2: "\<exists>x. fst (invoke example_split example_runner
              (example_cli (Raises (SystemExit (PyInt 2))))
              ArgsNone InputNone None True False [] example_world) = Returns x \<and>
        exit_code x = PyInt 2 \<and> exception x = Some (SystemExit (PyInt 2))"
    by fastforce
  from t [of "Raises (SystemExit (PyStr (ascii_text ''boom'')))"] e1 e2
  have 3: "\<exists>x. fst (invoke example_split example_runner
              (example_cli (Raises (SystemExit (PyStr (ascii_text ''boom'')))))
              ArgsNone InputNone None True False [] example_world) = Returns x \<and>
        exit_code x = PyInt 1 \<and> stdout_bytes x = ''boom'' @ [CHR 0x0A] \<and>
        exception x = Some (SystemExit (PyStr (ascii_text ''boom'')))"
    by fastforce
  from 1 2 3 show ?thesis by blast
qed

text \<open>
  The exception is recorded or not before a payload that is not an \<open>int\<close> becomes the
  exit code 1, and on \<open>payload != 0\<close>. With \<open>sys.exit(0.0)\<close> the float is equal to 0, so
  no exception is recorded; it is not an \<open>int\<close>, so \<open>0.0\<close> and a newline are written and
  the exit code is 1: a final code that is not zero, and no exception in the result.
\<close>

theorem invoke_exit_zero_float_counterexample:
  "fst (invoke example_split example_runner
          (example_cli (Raises (SystemExit (PyObject False (ascii_text ''0.0'')))))
          ArgsNone InputNone None True False [] example_world) =
   Returns \<lparr> runner = example_runner, stdout_bytes = ''0.0'' @ [CHR 0x0A], stderr_bytes = None,
             return_value = PyNone, exit_code = PyInt 1, exception = None,
             exc_info = Some (SystemExit (PyObject False (ascii_text ''0.0''))) \<rparr>"
  by code_simp

text \<open>
  C4. In an invocation that reaches the entry point, when the entry point raises an
  exception \<open>e\<close> that derives from \<open>Exception\<close>: with \<open>catch_exceptions\<close> off \<open>invoke\<close>
  raises \<open>e\<close> and there is no result; with \<open>catch_exceptions\<close> on there is a result, whose
  exception and \<open>exc_info\<close> are \<open>e\<close>, whose exit code is 1, whose return value is \<open>None\<close>
  and whose output is what was written before.
\<close>

theorem invoke_exception:
  fixes input :: input_payload and color :: bool
  assumes enter: "isolation_enter self input env_arg color w = Inr (sess, sv, old_env, w1)"
    and args: "split_args shlex_split a = Inr argv"
    and main: "main c argv (fst (pop_prog_name c extra)) (snd (pop_prog_name c extra)) sess w1 =
                 (Raises e, s1, w2)"
    and exc: "isinstance_Exception e"
  shows "fst (invoke shlex_split self c a input env_arg False color extra w) = Raises e \<and>
         (\<exists>x. fst (invoke shlex_split self c a input env_arg True color extra w) = Returns x \<and>
              exception x = Some e \<and> exc_info x = Some e \<and> exit_code x = PyInt 1 \<and>
              return_value x = PyNone \<and>
              stdout_bytes x = bytes_output s1 @ w_pending (stdout_wrapper s1))"
  using exc
  by (simp add: invoke_after_main [OF enter args main] invoke_try_simps)

theorem invoke_exception_witness:
  "fst (invoke example_split example_runner (example_cli (Raises ValueError))
          ArgsNone InputNone None False False [] example_world) = Raises ValueError \<and>
   (\<exists>x. fst (invoke example_split example_runner (example_cli (Raises ValueError))
              ArgsNone InputNone None True False [] example_world) = Returns x \<and>
        exception x = Some ValueError \<and> exit_code x = PyInt 1)"
proof -
  from example_enter obtain sess sv old_env w1 where
    enter: "isolation_enter example_runner InputNone None False example_world =
              Inr (sess, sv, old_env, w1)" by blast
  have args: "split_args example_split ArgsNone = Inr []" by (simp add: split_args_def)
  have main: "main (example_cli r) [] (fst (pop_prog_name (example_cli r) []))
                (snd (pop_prog_name (example_cli r) [])) sess w1 = (r, sess, w1)" for r
    by (simp add: example_cli_def)
  have exc: "isinstance_Exception ValueError" by simp
  from invoke_exception [OF enter args main exc] show ?thesis by blast
qed

text \<open>
  The handler is \<open>except Exception\<close>: an exception that derives from \<open>BaseException\<close>
  only, such as \<open>KeyboardInterrupt\<close>, is not caught, and with \<open>catch_exceptions\<close> on
  \<open>invoke\<close> still raises it.
\<close>

theorem invoke_keyboard_interrupt_counterexample:
  "fst (invoke example_split example_runner (example_cli (Raises KeyboardInterrupt))
          ArgsNone InputNone None True False [] example_world) = Raises KeyboardInterrupt"
  by code_simp

end
